theory Spec2Isabelle
  imports Main "HOL-Library.AList"
begin

section \<open>FarmTech Solutions: the farm management script\<close>

text \<open>
  A shallow embedding of \<^verbatim>\<open>farm_management.py\<close>. The script keeps a global list
  \<^verbatim>\<open>crop_data\<close> of crop records, reads what the operator types with \<^verbatim>\<open>input\<close>,
  reports with \<^verbatim>\<open>print\<close>, and writes and reads CSV files. All of that is made explicit
  in a record \<open>world\<close> that every operation takes and returns. An exception that leaves an
  operation is the result \<open>Inl e\<close>: nothing in the script catches it above the operation,
  so the interpreter stops there.
\<close>

subsection \<open>Python values that the script relies on\<close>

text \<open>
  Python dictionaries keep insertion order. A dictionary is an association list with
  lookup \<^const>\<open>map_of\<close>, assignment \<^const>\<open>AList.update\<close> (an existing key keeps its position,
  a new key goes to the end) and iteration in list order. The script builds its
  dictionaries by assignment, which never enters a key twice; a statement that needs this
  of a dictionary it is given says so.
\<close>

type_synonym ('k, 'v) dict = "('k \<times> 'v) list"

definition keys :: "('k, 'v) dict \<Rightarrow> 'k list" where
  "keys d = map fst d"

definition py_dict :: "('k \<times> 'v) list \<Rightarrow> ('k, 'v) dict" where
  \<comment> \<open>\<^verbatim>\<open>dict(pairs)\<close>: the pairs are assigned from left to right.\<close>
  "py_dict ps = foldl (\<lambda>d (k, v). AList.update k v d) [] ps"

datatype error =
    EOFError
  | FileNotFoundError string
  | KeyError "string option"
  | ValueError string
  | TypeError
  | IndexError
  | IsADirectoryError
  | PermissionError
  | CsvError

text \<open>
  Floating-point numbers and the conversions between numbers and text belong to the Python
  runtime, not to the script. The type \<open>'f\<close> stands for \<^verbatim>\<open>float\<close>, and the runtime is a
  record of the functions the script calls on it. A conversion that raises \<^verbatim>\<open>ValueError\<close>
  returns \<open>None\<close>. Of the exceptions, \<^verbatim>\<open>ValueError\<close> carries its message, \<^verbatim>\<open>KeyError\<close> the
  key that was not found and \<^verbatim>\<open>FileNotFoundError\<close> the name of the file.
\<close>

record 'f runtime =
  float_of_str :: "string \<Rightarrow> 'f option"
  int_of_str :: "string \<Rightarrow> int option"
  str_of_float :: "'f \<Rightarrow> string"
  str_of_int :: "int \<Rightarrow> string"
  float_mul :: "'f \<Rightarrow> 'f \<Rightarrow> 'f"
  float_div_int :: "'f \<Rightarrow> int \<Rightarrow> 'f"
  float_ge_int :: "'f \<Rightarrow> int \<Rightarrow> bool"
  float_gt_int :: "'f \<Rightarrow> int \<Rightarrow> bool"
  repr_str :: "string \<Rightarrow> string"

definition py_float :: "'f runtime \<Rightarrow> string option \<Rightarrow> error + 'f" where
  \<comment> \<open>\<^verbatim>\<open>float(x)\<close> for \<open>x\<close> a string or \<^verbatim>\<open>None\<close>.\<close>
  "py_float rt x =
     (case x of
        None \<Rightarrow> Inl TypeError
      | Some s \<Rightarrow>
          (case float_of_str rt s of
             None \<Rightarrow> Inl (ValueError (''could not convert string to float: '' @ repr_str rt s))
           | Some v \<Rightarrow> Inr v))"

definition py_int :: "'f runtime \<Rightarrow> string option \<Rightarrow> error + int" where
  \<comment> \<open>\<^verbatim>\<open>int(x)\<close> for \<open>x\<close> a string or \<^verbatim>\<open>None\<close>.\<close>
  "py_int rt x =
     (case x of
        None \<Rightarrow> Inl TypeError
      | Some s \<Rightarrow>
          (case int_of_str rt s of
             None \<Rightarrow> Inl (ValueError (''invalid literal for int() with base 10: '' @ repr_str rt s))
           | Some v \<Rightarrow> Inr v))"

definition str_of_KeyError :: "'f runtime \<Rightarrow> string option \<Rightarrow> string" where
  \<comment> \<open>\<^verbatim>\<open>str(e)\<close> for a \<^verbatim>\<open>KeyError\<close>: the \<^verbatim>\<open>repr\<close> of the key.\<close>
  "str_of_KeyError rt key = (case key of None \<Rightarrow> ''None'' | Some k \<Rightarrow> repr_str rt k)"

subsection \<open>The data model\<close>

text \<open>
  \<^verbatim>\<open>INPUTS\<close> is loaded from \<^verbatim>\<open>crop_inputs.json\<close>, which is not part of the sources: it is a
  parameter \<open>INPUTS\<close> of every operation that reads it. Each crop type maps to its input
  kinds, each kind to a name and a unit.
\<close>

record input_info =
  info_name :: string
  info_unit :: string

type_synonym catalog = "(string, (string, input_info) dict) dict"

definition CROP_TYPES :: "catalog \<Rightarrow> string list" where
  "CROP_TYPES INPUTS = keys INPUTS"

text \<open>
  One entry of a record's \<^verbatim>\<open>inputs\<close> dictionary. Name and unit are strings when the record
  was typed in; an imported record takes them from the row as they are, and a row shorter
  than the header holds \<^verbatim>\<open>None\<close> there.
\<close>

record 'f input_data =
  in_name :: "string option"
  in_amount_per_ha :: 'f
  in_total_amount :: 'f
  in_unit :: "string option"

record 'f crop =
  crop_type :: string
  crop_length :: 'f
  crop_width :: 'f
  crop_area :: 'f
  crop_num_rows :: int
  crop_inputs :: "(string, 'f input_data) dict"

text \<open>
  A CSV file is the list of its rows, each row the list of its cells, as \<^verbatim>\<open>csv.writer\<close>
  writes them and \<^verbatim>\<open>csv.reader\<close> yields them; quoting and line ends are the library's.
  (A cell is taken to hold no carriage return: the script writes with \<^verbatim>\<open>newline=\<close>\<^verbatim>\<open>''\<close> and
  reads without it, so that a carriage return inside a cell would come back as a line feed.)
\<close>

type_synonym csv = "string list list"

text \<open>
  What the file system holds under a name: a CSV file that \<^verbatim>\<open>csv.reader\<close> reads to its end;
  a file that \<^verbatim>\<open>csv.reader\<close> reads up to some row and then fails on, with \<^verbatim>\<open>csv.Error\<close>
  (\<open>CsvError\<close>) or with \<^verbatim>\<open>UnicodeDecodeError\<close>, which is a \<^verbatim>\<open>ValueError\<close>; a directory, on
  which \<^verbatim>\<open>open\<close> raises \<^verbatim>\<open>IsADirectoryError\<close>; or a file that the user may not open, on which
  it raises \<^verbatim>\<open>PermissionError\<close>. A name that the file system lacks is a file that does not
  exist.
\<close>

datatype node = CsvFile csv | Damaged csv error | Directory | Protected

record 'f world =
  crop_data :: "'f crop list"
  files :: "(string, node) dict"
  stdin :: "string list"
  stdout :: "string list"

definition print :: "string \<Rightarrow> 'f world \<Rightarrow> 'f world" where
  "print s w = w\<lparr>stdout := stdout w @ [s]\<rparr>"

definition input :: "string \<Rightarrow> 'f world \<Rightarrow> error + (string \<times> 'f world)" where
  \<comment> \<open>\<^verbatim>\<open>input(prompt)\<close>: writes the prompt and takes the next line; at end of input it raises.\<close>
  "input prompt w =
     (case stdin w of
        [] \<Rightarrow> Inl EOFError
      | l # ls \<Rightarrow> Inr (l, w\<lparr>stdin := ls, stdout := stdout w @ [prompt]\<rparr>))"

subsection \<open>Calculator\<close>

definition calculate_area :: "'f runtime \<Rightarrow> 'f \<Rightarrow> 'f \<Rightarrow> 'f" where
  "calculate_area rt len width = float_div_int rt (float_mul rt len width) 10000"

definition calculate_total_input :: "'f runtime \<Rightarrow> 'f \<Rightarrow> 'f \<Rightarrow> 'f" where
  "calculate_total_input rt area amount_per_ha = float_mul rt area amount_per_ha"

subsection \<open>Entering a record\<close>

text \<open>
  Both \<^verbatim>\<open>while True\<close> statements of \<^verbatim>\<open>input_crop_data\<close> ask again after a bad answer.
  Each round takes one line of input, so they end: with an answer, or with \<^verbatim>\<open>EOFError\<close>.
\<close>

function read_choice :: "'f runtime \<Rightarrow> catalog \<Rightarrow> 'f world \<Rightarrow> error + (string \<times> 'f world)" where
  "read_choice rt INPUTS w =
     (case input ''Enter the number of your choice: '' w of
        Inl e \<Rightarrow> Inl e
      | Inr (l, w1) \<Rightarrow>
          (case int_of_str rt l of
             None \<Rightarrow> read_choice rt INPUTS (print ''Please enter a valid number.'' w1)
           | Some choice \<Rightarrow>
               if 1 \<le> choice \<and> choice \<le> int (length (CROP_TYPES INPUTS))
               then Inr (CROP_TYPES INPUTS ! nat (choice - 1), w1)
               else read_choice rt INPUTS (print ''Invalid choice. Please try again.'' w1)))"
  by pat_completeness auto
termination
  by (relation "measure (\<lambda>(rt, INPUTS, w). length (stdin w))")
     (auto simp: input_def print_def split: list.splits)

function read_amount :: "'f runtime \<Rightarrow> string \<Rightarrow> 'f world \<Rightarrow> error + ('f \<times> 'f world)" where
  "read_amount rt prompt w =
     (case input prompt w of
        Inl e \<Rightarrow> Inl e
      | Inr (l, w1) \<Rightarrow>
          (case float_of_str rt l of
             None \<Rightarrow> read_amount rt prompt (print ''Please enter a valid number.'' w1)
           | Some amount_per_ha \<Rightarrow>
               if float_ge_int rt amount_per_ha 0
               then Inr (amount_per_ha, w1)
               else read_amount rt prompt (print ''Please enter a non-negative number.'' w1)))"
  by pat_completeness auto
termination
  by (relation "measure (\<lambda>(rt, prompt, w). length (stdin w))")
     (auto simp: input_def print_def split: list.splits)

definition amount_prompt :: "string \<Rightarrow> input_info \<Rightarrow> string" where
  "amount_prompt input_type info =
     input_type @ '' ('' @ info_name info @ '') in '' @ info_unit info
       @ '' per hectare: ''"

text \<open>The \<^verbatim>\<open>for\<close> loop over \<^verbatim>\<open>available_inputs.items()\<close>, with \<^verbatim>\<open>inputs_data\<close> as it grows.\<close>

fun read_inputs ::
  "'f runtime \<Rightarrow> 'f \<Rightarrow> (string \<times> input_info) list \<Rightarrow> (string, 'f input_data) dict \<Rightarrow> 'f world
     \<Rightarrow> error + ((string, 'f input_data) dict \<times> 'f world)" where
  "read_inputs rt area [] inputs_data w = Inr (inputs_data, w)"
| "read_inputs rt area ((input_type, info) # rest) inputs_data w =
     (case read_amount rt (amount_prompt input_type info) w of
        Inl e \<Rightarrow> Inl e
      | Inr (amount_per_ha, w1) \<Rightarrow>
          if float_gt_int rt amount_per_ha 0
          then read_inputs rt area rest
                 (AList.update input_type
                    \<lparr>in_name = Some (info_name info),
                     in_amount_per_ha = amount_per_ha,
                     in_total_amount = calculate_total_input rt area amount_per_ha,
                     in_unit = Some (info_unit info)\<rparr>
                    inputs_data)
                 w1
          else read_inputs rt area rest inputs_data w1)"

fun print_crop_types :: "'f runtime \<Rightarrow> int \<Rightarrow> string list \<Rightarrow> 'f world \<Rightarrow> 'f world" where
  "print_crop_types rt i [] w = w"
| "print_crop_types rt i (crop # rest) w =
     print_crop_types rt (i + 1) rest (print (str_of_int rt i @ ''. '' @ crop) w)"

definition input_float :: "'f runtime \<Rightarrow> string \<Rightarrow> 'f world \<Rightarrow> error + ('f \<times> 'f world)" where
  \<comment> \<open>\<^verbatim>\<open>float(input(prompt))\<close> outside any \<^verbatim>\<open>try\<close>.\<close>
  "input_float rt prompt w =
     (case input prompt w of
        Inl e \<Rightarrow> Inl e
      | Inr (l, w1) \<Rightarrow>
          (case py_float rt (Some l) of Inl e \<Rightarrow> Inl e | Inr v \<Rightarrow> Inr (v, w1)))"

definition input_int :: "'f runtime \<Rightarrow> string \<Rightarrow> 'f world \<Rightarrow> error + (int \<times> 'f world)" where
  \<comment> \<open>\<^verbatim>\<open>int(input(prompt))\<close> outside any \<^verbatim>\<open>try\<close>.\<close>
  "input_int rt prompt w =
     (case input prompt w of
        Inl e \<Rightarrow> Inl e
      | Inr (l, w1) \<Rightarrow>
          (case py_int rt (Some l) of Inl e \<Rightarrow> Inl e | Inr v \<Rightarrow> Inr (v, w1)))"

definition read_dimensions ::
  "'f runtime \<Rightarrow> 'f world \<Rightarrow> error + (('f \<times> 'f \<times> int) \<times> 'f world)" where
  "read_dimensions rt w =
     (case input_float rt ''Enter field length (in meters): '' w of
        Inl e \<Rightarrow> Inl e
      | Inr (len, w1) \<Rightarrow>
     (case input_float rt ''Enter field width (in meters): '' w1 of
        Inl e \<Rightarrow> Inl e
      | Inr (width, w2) \<Rightarrow>
     (case input_int rt ''Enter the number of rows in the field: '' w2 of
        Inl e \<Rightarrow> Inl e
      | Inr (num_rows, w3) \<Rightarrow> Inr ((len, width, num_rows), w3))))"

definition input_crop_data :: "'f runtime \<Rightarrow> catalog \<Rightarrow> 'f world \<Rightarrow> error + 'f world" where
  "input_crop_data rt INPUTS w =
     (let w0 = print_crop_types rt 1 (CROP_TYPES INPUTS)
                 (print (CHR ''\<newline>'' # ''Select crop type:'') w)
      in
      case read_choice rt INPUTS w0 of
        Inl e \<Rightarrow> Inl e
      | Inr (ctype, w1) \<Rightarrow>
     (case read_dimensions rt w1 of
        Inl e \<Rightarrow> Inl e
      | Inr ((len, width, num_rows), w2) \<Rightarrow>
     (let area = calculate_area rt len width in
      case map_of INPUTS ctype of
        None \<Rightarrow> Inl (KeyError (Some ctype))
      | Some available_inputs \<Rightarrow>
     (case read_inputs rt area available_inputs []
             (print (CHR ''\<newline>'' # ''Enter the quantity for each input (or 0 to skip):'') w2) of
        Inl e \<Rightarrow> Inl e
      | Inr (inputs_data, w3) \<Rightarrow>
          Inr (print ''Data added successfully.''
                 (w3\<lparr>crop_data := crop_data w3 @
                    [\<lparr>crop_type = ctype, crop_length = len, crop_width = width,
                      crop_area = area, crop_num_rows = num_rows,
                      crop_inputs = inputs_data\<rparr>]\<rparr>))))))"

subsection \<open>Updating and deleting\<close>

text \<open>
  In \<^verbatim>\<open>crop_data[idx] = crop_data.pop()\<close> Python evaluates the right-hand side first: the
  record that \<^verbatim>\<open>input_crop_data\<close> has just appended is taken off the end, and then stored
  at \<^verbatim>\<open>idx\<close> in the list, which has its old length again. \<^verbatim>\<open>pop\<close> on an empty list and an
  assignment beyond the end of the list would raise \<^verbatim>\<open>IndexError\<close>.
\<close>

definition update_crop_data :: "'f runtime \<Rightarrow> catalog \<Rightarrow> 'f world \<Rightarrow> error + 'f world" where
  "update_crop_data rt INPUTS w =
     (if crop_data w = [] then Inr (print ''No data available to update.'' w)
      else
        case input_int rt ''Enter the index of the crop to update: '' w of
          Inl e \<Rightarrow> Inl e
        | Inr (i, w1) \<Rightarrow>
            (let idx = i - 1 in
             if 0 \<le> idx \<and> idx < int (length (crop_data w1))
             then
               (case input_crop_data rt INPUTS w1 of
                  Inl e \<Rightarrow> Inl e
                | Inr w2 \<Rightarrow>
                    if crop_data w2 = [] then Inl IndexError
                    else
                      (let popped = last (crop_data w2);
                           remaining = butlast (crop_data w2)
                       in if nat idx < length remaining
                          then Inr (print ''Data updated successfully.''
                                      (w2\<lparr>crop_data := remaining[nat idx := popped]\<rparr>))
                          else Inl IndexError))
             else Inr (print ''Invalid index.'' w1)))"

definition delete_crop_data :: "'f runtime \<Rightarrow> 'f world \<Rightarrow> error + 'f world" where
  "delete_crop_data rt w =
     (if crop_data w = [] then Inr (print ''No data available to delete.'' w)
      else
        case input_int rt ''Enter the index of the crop to delete: '' w of
          Inl e \<Rightarrow> Inl e
        | Inr (i, w1) \<Rightarrow>
            (let idx = i - 1 in
             if 0 \<le> idx \<and> idx < int (length (crop_data w1))
             then Inr (print ''Data deleted successfully.''
                         (w1\<lparr>crop_data := take (nat idx) (crop_data w1)
                                              @ drop (Suc (nat idx)) (crop_data w1)\<rparr>))
             else Inr (print ''Invalid index.'' w1)))"

subsection \<open>Export\<close>

text \<open>
  The three nested \<^verbatim>\<open>for\<close> statements that extend \<^verbatim>\<open>fieldnames\<close>, innermost first.
  Each \<^verbatim>\<open>append\<close> adds one column name at the end; nothing looks at what the list already holds.
\<close>

fun append_key_fields :: "string \<Rightarrow> string list \<Rightarrow> string list \<Rightarrow> string list" where
  "append_key_fields input_type [] fieldnames = fieldnames"
| "append_key_fields input_type (key # rest) fieldnames =
     append_key_fields input_type rest (fieldnames @ [input_type @ ''_'' @ key])"

fun append_input_fields :: "string list \<Rightarrow> string list \<Rightarrow> string list" where
  "append_input_fields [] fieldnames = fieldnames"
| "append_input_fields (input_type # rest) fieldnames =
     append_input_fields rest
       (append_key_fields input_type [''name'', ''amount_per_ha'', ''total_amount'', ''unit'']
          fieldnames)"

fun append_crop_fields :: "'f crop list \<Rightarrow> string list \<Rightarrow> string list" where
  "append_crop_fields [] fieldnames = fieldnames"
| "append_crop_fields (crop # rest) fieldnames =
     append_crop_fields rest (append_input_fields (keys (crop_inputs crop)) fieldnames)"

definition export_fieldnames :: "'f crop list \<Rightarrow> string list" where
  "export_fieldnames crops =
     append_crop_fields crops [''type'', ''length'', ''width'', ''area'', ''num_rows'']"

text \<open>The values that \<^verbatim>\<open>export_to_csv\<close> puts into a row dictionary.\<close>

datatype 'f pyval = VStr string | VFloat 'f | VInt int | VNone

definition str_or_none :: "string option \<Rightarrow> 'f pyval" where
  "str_or_none x = (case x of None \<Rightarrow> VNone | Some s \<Rightarrow> VStr s)"

fun add_input_cells ::
  "(string \<times> 'f input_data) list \<Rightarrow> (string, 'f pyval) dict \<Rightarrow> (string, 'f pyval) dict" where
  "add_input_cells [] row = row"
| "add_input_cells ((input_type, input_data) # rest) row =
     add_input_cells rest
       (AList.update (input_type @ ''_unit'') (str_or_none (in_unit input_data))
       (AList.update (input_type @ ''_total_amount'') (VFloat (in_total_amount input_data))
       (AList.update (input_type @ ''_amount_per_ha'') (VFloat (in_amount_per_ha input_data))
       (AList.update (input_type @ ''_name'') (str_or_none (in_name input_data)) row))))"

definition export_row :: "'f crop \<Rightarrow> (string, 'f pyval) dict" where
  "export_row crop =
     add_input_cells (crop_inputs crop)
       [(''type'', VStr (crop_type crop)),
        (''length'', VFloat (crop_length crop)),
        (''width'', VFloat (crop_width crop)),
        (''area'', VFloat (crop_area crop)),
        (''num_rows'', VInt (crop_num_rows crop))]"

text \<open>
  \<^verbatim>\<open>csv.DictWriter.writerow\<close>: a key of the row that is no field name raises
  \<^verbatim>\<open>ValueError\<close>; a field name that the row lacks gets the empty string; \<^verbatim>\<open>csv.writer\<close>
  writes \<^verbatim>\<open>None\<close> as the empty string and any other value through \<^verbatim>\<open>str\<close>.
\<close>

definition csv_cell :: "'f runtime \<Rightarrow> 'f pyval \<Rightarrow> string" where
  "csv_cell rt v =
     (case v of
        VStr s \<Rightarrow> s
      | VFloat x \<Rightarrow> str_of_float rt x
      | VInt n \<Rightarrow> str_of_int rt n
      | VNone \<Rightarrow> [])"

definition writerow ::
  "'f runtime \<Rightarrow> string list \<Rightarrow> (string, 'f pyval) dict \<Rightarrow> error + string list" where
  "writerow rt fieldnames rowdict =
     (case filter (\<lambda>k. k \<notin> set fieldnames) (keys rowdict) of
        k # ks \<Rightarrow>
          Inl (ValueError (''dict contains fields not in fieldnames: ''
                             @ repr_str rt k @ concat (map (\<lambda>k. '', '' @ repr_str rt k) ks)))
      | [] \<Rightarrow>
          Inr (map (\<lambda>key. csv_cell rt (case map_of rowdict key of None \<Rightarrow> VStr [] | Some v \<Rightarrow> v))
                 fieldnames))"

fun write_rows :: "'f runtime \<Rightarrow> string list \<Rightarrow> 'f crop list \<Rightarrow> csv \<Rightarrow> error + csv" where
  "write_rows rt fieldnames [] written = Inr written"
| "write_rows rt fieldnames (crop # rest) written =
     (case writerow rt fieldnames (export_row crop) of
        Inl e \<Rightarrow> Inl e
      | Inr cells \<Rightarrow> write_rows rt fieldnames rest (written @ [cells]))"

definition open_for_writing :: "'f world \<Rightarrow> string \<Rightarrow> error option" where
  \<comment> \<open>The exception that \<^verbatim>\<open>open(name, 'w')\<close> raises, if it raises one.\<close>
  "open_for_writing w name =
     (case map_of (files w) name of
        None \<Rightarrow> None
      | Some entry \<Rightarrow>
          (case entry of
             Directory \<Rightarrow> Some IsADirectoryError
           | Protected \<Rightarrow> Some PermissionError
           | CsvFile rows \<Rightarrow> None
           | Damaged rows e \<Rightarrow> None))"

definition export_to_csv :: "'f runtime \<Rightarrow> 'f world \<Rightarrow> error + 'f world" where
  "export_to_csv rt w =
     (if crop_data w = [] then Inr (print ''No data available to export.'' w)
      else
        case open_for_writing w ''crop_data.csv'' of
          Some e \<Rightarrow> Inl e
        | None \<Rightarrow>
            (let fieldnames = export_fieldnames (crop_data w) in
             case write_rows rt fieldnames (crop_data w) [fieldnames] of
               Inl e \<Rightarrow> Inl e
             | Inr written \<Rightarrow>
                 Inr (print ''Data exported to crop_data.csv successfully.''
                        (w\<lparr>files := AList.update ''crop_data.csv'' (CsvFile written)
                                         (files w)\<rparr>))))"

subsection \<open>Import\<close>

text \<open>
  \<^verbatim>\<open>csv.DictReader\<close>: the first row of the file gives the field names; every later row
  that is not empty becomes a dictionary from the field names to its cells, a row shorter
  than the header being filled up with \<^verbatim>\<open>None\<close>. (The cells beyond the header, which
  \<^verbatim>\<open>DictReader\<close> stores under the key \<^verbatim>\<open>None\<close>, are never looked up.)
\<close>

type_synonym csv_row = "(string, string option) dict"

definition read_row :: "string list \<Rightarrow> string list \<Rightarrow> csv_row" where
  "read_row fieldnames cells =
     py_dict (zip fieldnames
                (map Some cells @ replicate (length fieldnames - length cells) None))"

fun DictReader :: "csv \<Rightarrow> csv_row list" where
  "DictReader [] = []"
| "DictReader (fieldnames # rows) = map (read_row fieldnames) (filter (\<lambda>r. r \<noteq> []) rows)"

definition row_get :: "csv_row \<Rightarrow> string \<Rightarrow> error + string option" where
  \<comment> \<open>\<^verbatim>\<open>row[key]\<close>\<close>
  "row_get row key = (case map_of row key of None \<Rightarrow> Inl (KeyError (Some key)) | Some v \<Rightarrow> Inr v)"

definition row_float :: "'f runtime \<Rightarrow> csv_row \<Rightarrow> string \<Rightarrow> error + 'f" where
  \<comment> \<open>\<^verbatim>\<open>float(row[key])\<close>\<close>
  "row_float rt row key = (case row_get row key of Inl e \<Rightarrow> Inl e | Inr v \<Rightarrow> py_float rt v)"

definition row_int :: "'f runtime \<Rightarrow> csv_row \<Rightarrow> string \<Rightarrow> error + int" where
  \<comment> \<open>\<^verbatim>\<open>int(row[key])\<close>\<close>
  "row_int rt row key = (case row_get row key of Inl e \<Rightarrow> Inl e | Inr v \<Rightarrow> py_int rt v)"

definition import_input :: "'f runtime \<Rightarrow> csv_row \<Rightarrow> string \<Rightarrow> error + 'f input_data" where
  \<comment> \<open>The dictionary built for one input kind, its four entries in the order of the source.\<close>
  "import_input rt row input_type =
     (case row_get row (input_type @ ''_name'') of
        Inl e \<Rightarrow> Inl e
      | Inr name \<Rightarrow>
     (case row_float rt row (input_type @ ''_amount_per_ha'') of
        Inl e \<Rightarrow> Inl e
      | Inr amount_per_ha \<Rightarrow>
     (case row_float rt row (input_type @ ''_total_amount'') of
        Inl e \<Rightarrow> Inl e
      | Inr total_amount \<Rightarrow>
     (case row_get row (input_type @ ''_unit'') of
        Inl e \<Rightarrow> Inl e
      | Inr unit \<Rightarrow>
          Inr \<lparr>in_name = name, in_amount_per_ha = amount_per_ha,
               in_total_amount = total_amount, in_unit = unit\<rparr>))))"

fun import_inputs ::
  "'f runtime \<Rightarrow> csv_row \<Rightarrow> string list \<Rightarrow> (string, 'f input_data) dict
     \<Rightarrow> error + (string, 'f input_data) dict" where
  "import_inputs rt row [] inputs = Inr inputs"
| "import_inputs rt row (input_type # rest) inputs =
     (if input_type @ ''_name'' \<in> set (keys row)
      then
        (case import_input rt row input_type of
           Inl e \<Rightarrow> Inl e
         | Inr input_data \<Rightarrow> import_inputs rt row rest (AList.update input_type input_data inputs))
      else import_inputs rt row rest inputs)"

text \<open>
  The body of the loop over the rows. The source first builds the record with an empty
  \<^verbatim>\<open>inputs\<close> and then reads \<^verbatim>\<open>INPUTS[row['type']]\<close>; a row whose type is \<^verbatim>\<open>None\<close> or no
  crop type of the catalog raises \<^verbatim>\<open>KeyError\<close> there, so no such record is ever kept.
\<close>

definition import_row :: "'f runtime \<Rightarrow> catalog \<Rightarrow> csv_row \<Rightarrow> error + 'f crop" where
  "import_row rt INPUTS row =
     (case row_get row ''type'' of
        Inl e \<Rightarrow> Inl e
      | Inr ty \<Rightarrow>
     (case row_float rt row ''length'' of
        Inl e \<Rightarrow> Inl e
      | Inr len \<Rightarrow>
     (case row_float rt row ''width'' of
        Inl e \<Rightarrow> Inl e
      | Inr width \<Rightarrow>
     (case row_float rt row ''area'' of
        Inl e \<Rightarrow> Inl e
      | Inr area \<Rightarrow>
     (case row_int rt row ''num_rows'' of
        Inl e \<Rightarrow> Inl e
      | Inr num_rows \<Rightarrow>
     (case ty of
        None \<Rightarrow> Inl (KeyError None)
      | Some ctype \<Rightarrow>
     (case map_of INPUTS ctype of
        None \<Rightarrow> Inl (KeyError (Some ctype))
      | Some available_inputs \<Rightarrow>
     (case import_inputs rt row (keys available_inputs) [] of
        Inl e \<Rightarrow> Inl e
      | Inr inputs \<Rightarrow>
          Inr \<lparr>crop_type = ctype, crop_length = len, crop_width = width, crop_area = area,
               crop_num_rows = num_rows, crop_inputs = inputs\<rparr>))))))))"

fun import_rows ::
  "'f runtime \<Rightarrow> catalog \<Rightarrow> csv_row list \<Rightarrow> 'f crop list \<Rightarrow> error + 'f crop list" where
  "import_rows rt INPUTS [] imported_data = Inr imported_data"
| "import_rows rt INPUTS (row # rest) imported_data =
     (case import_row rt INPUTS row of
        Inl e \<Rightarrow> Inl e
      | Inr crop \<Rightarrow> import_rows rt INPUTS rest (imported_data @ [crop]))"

definition read_csv :: "'f runtime \<Rightarrow> catalog \<Rightarrow> 'f world \<Rightarrow> string \<Rightarrow> error + 'f crop list" where
  \<comment> \<open>The \<^verbatim>\<open>with\<close> block up to the assignment to \<^verbatim>\<open>crop_data\<close>.\<close>
  "read_csv rt INPUTS w filename =
     (case map_of (files w) filename of
        None \<Rightarrow> Inl (FileNotFoundError filename)
      | Some entry \<Rightarrow>
          (case entry of
             Directory \<Rightarrow> Inl IsADirectoryError
           | Protected \<Rightarrow> Inl PermissionError
           | CsvFile csvfile \<Rightarrow> import_rows rt INPUTS (DictReader csvfile) []
           | Damaged csvfile e \<Rightarrow>
               (case import_rows rt INPUTS (DictReader csvfile) [] of
                  Inl e' \<Rightarrow> Inl e'
                | Inr imported_data \<Rightarrow> Inl e)))"

definition import_from_csv :: "'f runtime \<Rightarrow> catalog \<Rightarrow> 'f world \<Rightarrow> error + 'f world" where
  "import_from_csv rt INPUTS w =
     (case input ''Enter the name of the CSV file to import: '' w of
        Inl e \<Rightarrow> Inl e
      | Inr (filename, w1) \<Rightarrow>
          (case read_csv rt INPUTS w1 filename of
             Inr imported_data \<Rightarrow>
               Inr (print (''Successfully imported ''
                             @ str_of_int rt (int (length imported_data))
                             @ '' crops from '' @ filename @ ''.'')
                      (w1\<lparr>crop_data := imported_data\<rparr>))
           | Inl (FileNotFoundError f) \<Rightarrow>
               Inr (print (''File '' @ [CHR 0x27] @ filename @ [CHR 0x27]
                             @ '' not found. Please make sure the file exists and try again.'')
                      w1)
           | Inl (KeyError k) \<Rightarrow>
               Inr (print (''Error: Missing column in CSV file. '' @ str_of_KeyError rt k)
                      w1)
           | Inl (ValueError msg) \<Rightarrow>
               Inr (print (''Error: Invalid data in CSV file. '' @ msg) w1)
           | Inl e \<Rightarrow> Inl e))"

subsection \<open>The invariant of the record store\<close>

text \<open>
  A record is well formed when its crop type is a key of \<^verbatim>\<open>INPUTS\<close> and the keys of its
  \<^verbatim>\<open>inputs\<close> are input kinds that \<^verbatim>\<open>INPUTS\<close> lists for that crop type.
\<close>

definition crop_ok :: "catalog \<Rightarrow> 'f crop \<Rightarrow> bool" where
  "crop_ok INPUTS crop =
     (case map_of INPUTS (crop_type crop) of
        None \<Rightarrow> False
      | Some available_inputs \<Rightarrow> set (keys (crop_inputs crop)) \<subseteq> set (keys available_inputs))"

definition store_ok :: "catalog \<Rightarrow> 'f crop list \<Rightarrow> bool" where
  "store_ok INPUTS crops = list_all (crop_ok INPUTS) crops"

subsection \<open>The column schema in closed form, and as the specification has it\<close>

text \<open>The four columns of one input kind, and the five columns every file starts with.\<close>

definition kind_columns :: "string \<Rightarrow> string list" where
  "kind_columns kind =
     [kind @ ''_name'', kind @ ''_amount_per_ha'', kind @ ''_total_amount'', kind @ ''_unit'']"

definition fixed_columns :: "string list" where
  "fixed_columns = [''type'', ''length'', ''width'', ''area'', ''num_rows'']"

text \<open>
  The schema as the specification words it: after the fixed columns, one group of four
  columns for each input kind of the union of the records' kinds, without duplicates, in
  the order in which the kinds are first met.
\<close>

definition first_seen :: "'a list \<Rightarrow> 'a list" where
  "first_seen xs = rev (remdups (rev xs))"

definition union_fieldnames :: "'f crop list \<Rightarrow> string list" where
  "union_fieldnames crops =
     fixed_columns
       @ concat (map kind_columns (first_seen (concat (map (\<lambda>crop. keys (crop_inputs crop)) crops))))"

subsection \<open>Notions for the statements about import and the round trip\<close>

text \<open>The exceptions that \<^verbatim>\<open>import_from_csv\<close> has an \<^verbatim>\<open>except\<close> clause for.\<close>

definition handled :: "error \<Rightarrow> bool" where
  "handled e =
     (case e of
        FileNotFoundError f \<Rightarrow> True
      | KeyError k \<Rightarrow> True
      | ValueError msg \<Rightarrow> True
      | _ \<Rightarrow> False)"

text \<open>
  A row has an empty amount for a kind when its \<^verbatim>\<open>{kind}_amount_per_ha\<close> cell is the empty
  string, or that cell converts to a number and its \<^verbatim>\<open>{kind}_total_amount\<close> cell is the
  empty string.
\<close>

definition empty_amount :: "'f runtime \<Rightarrow> csv_row \<Rightarrow> string \<Rightarrow> bool" where
  "empty_amount rt row kind \<longleftrightarrow>
     map_of row (kind @ ''_amount_per_ha'') = Some (Some [])
     \<or> (case row_float rt row (kind @ ''_amount_per_ha'') of
          Inl e \<Rightarrow> False
        | Inr a \<Rightarrow> map_of row (kind @ ''_total_amount'') = Some (Some []))"

text \<open>The cell that export writes for a record under a column.\<close>

definition written_cell :: "'f runtime \<Rightarrow> 'f crop \<Rightarrow> string \<Rightarrow> string" where
  "written_cell rt crop key =
     csv_cell rt (case map_of (export_row crop) key of None \<Rightarrow> VStr [] | Some v \<Rightarrow> v)"

text \<open>
  Two records have the same content when their fields are equal and their \<^verbatim>\<open>inputs\<close> hold
  the same entries under the same kinds, as Python's \<^verbatim>\<open>==\<close> on dictionaries has it.
\<close>

definition same_content :: "'f crop \<Rightarrow> 'f crop \<Rightarrow> bool" where
  "same_content c c' \<longleftrightarrow>
     crop_type c = crop_type c' \<and> crop_length c = crop_length c'
     \<and> crop_width c = crop_width c' \<and> crop_area c = crop_area c'
     \<and> crop_num_rows c = crop_num_rows c'
     \<and> map_of (crop_inputs c) = map_of (crop_inputs c')"

text \<open>
  A record can be written and read back when \<^verbatim>\<open>float\<close> and \<^verbatim>\<open>int\<close> undo \<^verbatim>\<open>str\<close> on its
  numbers (as they do in Python for every number but \<^verbatim>\<open>nan\<close>), the names and units of its
  inputs are strings, and its \<^verbatim>\<open>inputs\<close> is a dictionary: no kind occurs twice.
\<close>

definition reads_back :: "'f runtime \<Rightarrow> 'f \<Rightarrow> bool" where
  "reads_back rt x \<longleftrightarrow> float_of_str rt (str_of_float rt x) = Some x"

definition exportable :: "'f runtime \<Rightarrow> 'f crop \<Rightarrow> bool" where
  "exportable rt crop \<longleftrightarrow>
     reads_back rt (crop_length crop) \<and> reads_back rt (crop_width crop)
     \<and> reads_back rt (crop_area crop)
     \<and> int_of_str rt (str_of_int rt (crop_num_rows crop)) = Some (crop_num_rows crop)
     \<and> distinct (keys (crop_inputs crop))
     \<and> (\<forall>(k, d) \<in> set (crop_inputs crop).
           in_name d \<noteq> None \<and> in_unit d \<noteq> None
           \<and> reads_back rt (in_amount_per_ha d) \<and> reads_back rt (in_total_amount d))"

text \<open>
  The records of a store agree on their kinds when every input kind that some record
  carries is carried by each record whose crop type has that kind in \<^verbatim>\<open>INPUTS\<close>.
\<close>

definition same_kinds :: "catalog \<Rightarrow> 'f crop list \<Rightarrow> bool" where
  "same_kinds INPUTS crops \<longleftrightarrow>
     (\<forall>c \<in> set crops. \<forall>c' \<in> set crops. \<forall>k \<in> set (keys (crop_inputs c')).
        case map_of INPUTS (crop_type c) of
          None \<Rightarrow> True
        | Some available_inputs \<Rightarrow>
            k \<in> set (keys available_inputs) \<longrightarrow> k \<in> set (keys (crop_inputs c)))"

subsection \<open>A runtime and data for the examples\<close>

text \<open>
  The examples below run the model on a small instance of the runtime. Its floats are the
  ones with an integral value, which Python prints with a trailing \<^verbatim>\<open>.0\<close> and reads back with
  or without it; its strings hold no character that \<^verbatim>\<open>repr\<close> escapes. Division is exact on
  the values the examples use.
\<close>

fun digits :: "nat \<Rightarrow> string" where
  "digits n =
     (if n < 10 then [''0123456789'' ! n]
      else digits (n div 10) @ [''0123456789'' ! (n mod 10)])"

declare digits.simps [simp del]

definition str_int :: "int \<Rightarrow> string" where
  "str_int i = (if i < 0 then CHR ''-'' # digits (nat (- i)) else digits (nat i))"

definition digit_value :: "char \<Rightarrow> nat option" where
  "digit_value c =
     (if c \<in> set ''0123456789''
      then Some (length (takeWhile (\<lambda>d. d \<noteq> c) ''0123456789''))
      else None)"

fun digits_value :: "string \<Rightarrow> nat \<Rightarrow> nat option" where
  "digits_value [] acc = Some acc"
| "digits_value (c # cs) acc =
     (case digit_value c of None \<Rightarrow> None | Some d \<Rightarrow> digits_value cs (10 * acc + d))"

definition parse_int :: "string \<Rightarrow> int option" where
  "parse_int s =
     (case s of
        [] \<Rightarrow> None
      | c # cs \<Rightarrow>
          if c = CHR ''-''
          then (if cs = [] then None else map_option (\<lambda>n. - int n) (digits_value cs 0))
          else map_option int (digits_value s 0))"

definition parse_float :: "string \<Rightarrow> int option" where
  "parse_float s =
     (if 2 < length s \<and> drop (length s - 2) s = ''.0''
      then parse_int (take (length s - 2) s)
      else parse_int s)"

definition rt_demo :: "int runtime" where
  "rt_demo =
     \<lparr>float_of_str = parse_float,
      int_of_str = parse_int,
      str_of_float = (\<lambda>x. str_int x @ ''.0''),
      str_of_int = str_int,
      float_mul = (\<lambda>x y. x * y),
      float_div_int = (\<lambda>x n. x div n),
      float_ge_int = (\<lambda>x n. x \<ge> n),
      float_gt_int = (\<lambda>x n. x > n),
      repr_str = (\<lambda>s. [CHR 0x27] @ s @ [CHR 0x27])\<rparr>"

text \<open>
  A catalog with two crop types, three records that the operator can enter with it, and
  the file that export writes for the first two of them.
\<close>

definition demo_INPUTS :: catalog where
  "demo_INPUTS =
     [(''Soybean'',
        [(''fertilizer'', \<lparr>info_name = ''NPK'', info_unit = ''kg''\<rparr>),
         (''pesticide'', \<lparr>info_name = ''Glyphosate'', info_unit = ''L''\<rparr>)]),
      (''Corn'',
        [(''fertilizer'', \<lparr>info_name = ''Urea'', info_unit = ''kg''\<rparr>)])]"

definition empty_world :: "int world" where
  "empty_world = \<lparr>crop_data = [], files = [], stdin = [], stdout = []\<rparr>"

definition soy_a :: "int crop" where
  "soy_a = \<lparr>crop_type = ''Soybean'', crop_length = 200, crop_width = 100, crop_area = 2,
            crop_num_rows = 10,
            crop_inputs = [(''fertilizer'',
               \<lparr>in_name = Some ''NPK'', in_amount_per_ha = 3, in_total_amount = 6,
                in_unit = Some ''kg''\<rparr>)]\<rparr>"

definition soy_b :: "int crop" where
  "soy_b = \<lparr>crop_type = ''Soybean'', crop_length = 100, crop_width = 100, crop_area = 1,
            crop_num_rows = 5, crop_inputs = []\<rparr>"

definition corn_c :: "int crop" where
  "corn_c = \<lparr>crop_type = ''Corn'', crop_length = 300, crop_width = 100, crop_area = 3,
             crop_num_rows = 7,
             crop_inputs = [(''fertilizer'',
               \<lparr>in_name = Some ''Urea'', in_amount_per_ha = 4, in_total_amount = 12,
                in_unit = Some ''kg''\<rparr>)]\<rparr>"

definition demo_header :: "string list" where
  "demo_header =
     [''type'', ''length'', ''width'', ''area'', ''num_rows'', ''fertilizer_name'',
      ''fertilizer_amount_per_ha'', ''fertilizer_total_amount'', ''fertilizer_unit'']"

definition demo_cells_a :: "string list" where
  "demo_cells_a = [''Soybean'', ''200.0'', ''100.0'', ''2.0'', ''10'', ''NPK'', ''3.0'', ''6.0'', ''kg'']"

definition demo_cells_b :: "string list" where
  "demo_cells_b = [''Soybean'', ''100.0'', ''100.0'', ''1.0'', ''5'', [], [], [], []]"

text \<open>
  A soybean field with both kinds of input, and the file that export writes for it and the
  field without inputs: the second row leaves the columns of both kinds empty.
\<close>

definition soy_full :: "int crop" where
  "soy_full = \<lparr>crop_type = ''Soybean'', crop_length = 200, crop_width = 100, crop_area = 2,
               crop_num_rows = 10,
               crop_inputs =
                 [(''fertilizer'',
                     \<lparr>in_name = Some ''NPK'', in_amount_per_ha = 3, in_total_amount = 6,
                      in_unit = Some ''kg''\<rparr>),
                  (''pesticide'',
                     \<lparr>in_name = Some ''Glyphosate'', in_amount_per_ha = 1, in_total_amount = 2,
                      in_unit = Some ''L''\<rparr>)]\<rparr>"

definition demo_header_full :: "string list" where
  "demo_header_full =
     demo_header @ [''pesticide_name'', ''pesticide_amount_per_ha'', ''pesticide_total_amount'',
                    ''pesticide_unit'']"

definition demo_cells_full :: "string list" where
  "demo_cells_full = demo_cells_a @ [''Glyphosate'', ''1.0'', ''2.0'', ''L'']"

definition demo_cells_none :: "string list" where
  "demo_cells_none = demo_cells_b @ [[], [], [], []]"

definition demo_file_world :: "csv \<Rightarrow> int world" where
  "demo_file_world csvfile =
     \<lparr>crop_data = [corn_c], files = [(''crop_data.csv'', CsvFile csvfile)],
      stdin = [''crop_data.csv''], stdout = []\<rparr>"

definition demo_input_world :: "int world" where
  "demo_input_world =
     \<lparr>crop_data = [soy_a], files = [],
      stdin = [''1'', ''1'', ''200'', ''100'', ''10'', ''3'', ''0''], stdout = []\<rparr>"

section \<open>Properties\<close>

subsection \<open>What reading input leaves alone\<close>

lemma crop_data_print [simp]: "crop_data (print s w) = crop_data w"
  by (simp add: print_def)

lemma files_print [simp]: "files (print s w) = files w"
  by (simp add: print_def)

lemma input_Inr:
  "input prompt w = Inr (l, w1) \<Longrightarrow>
     crop_data w1 = crop_data w \<and> files w1 = files w \<and> stdin w = l # stdin w1"
  by (auto simp: input_def split: list.splits)

lemma input_Cons:
  "stdin w = l # rest \<Longrightarrow>
     input prompt w = Inr (l, w\<lparr>stdin := rest, stdout := stdout w @ [prompt]\<rparr>)"
  by (simp add: input_def)

lemma input_int_Cons:
  "stdin w = l # rest \<Longrightarrow> int_of_str rt l = Some i \<Longrightarrow>
     input_int rt prompt w = Inr (i, w\<lparr>stdin := rest, stdout := stdout w @ [prompt]\<rparr>)"
  by (simp add: input_int_def input_Cons py_int_def)

lemma input_float_Inr:
  "input_float rt prompt w = Inr (v, w1) \<Longrightarrow> crop_data w1 = crop_data w \<and> files w1 = files w"
  by (auto simp: input_float_def split: sum.splits dest: input_Inr)

lemma input_int_Inr:
  "input_int rt prompt w = Inr (v, w1) \<Longrightarrow> crop_data w1 = crop_data w \<and> files w1 = files w"
  by (auto simp: input_int_def split: sum.splits dest: input_Inr)

lemma read_choice_Inr:
  "read_choice rt INPUTS w = Inr (ctype, w1) \<Longrightarrow>
     crop_data w1 = crop_data w \<and> files w1 = files w \<and> ctype \<in> set (CROP_TYPES INPUTS)"
proof (induction rt INPUTS w rule: read_choice.induct)
  case (1 rt INPUTS w)
  from "1.prems" obtain l w0 where inp: "input ''Enter the number of your choice: '' w = Inr (l, w0)"
    by (subst (asm) read_choice.simps) (auto split: sum.splits)
  note frame = input_Inr [OF inp]
  show ?case
  proof (cases "int_of_str rt l")
    case None
    with "1.prems" inp
    have "read_choice rt INPUTS (print ''Please enter a valid number.'' w0) = Inr (ctype, w1)"
      by (subst (asm) read_choice.simps) simp
    from "1.IH"(1) [OF inp refl None this] frame show ?thesis by simp
  next
    case (Some choice)
    show ?thesis
    proof (cases "1 \<le> choice \<and> choice \<le> int (length (CROP_TYPES INPUTS))")
      case True
      with "1.prems" inp Some
      have "ctype = CROP_TYPES INPUTS ! nat (choice - 1)" and "w1 = w0"
        by (subst (asm) read_choice.simps, simp)+
      moreover from True have "nat (choice - 1) < length (CROP_TYPES INPUTS)" by linarith
      ultimately show ?thesis using frame by simp
    next
      case False
      with "1.prems" inp Some
      have "read_choice rt INPUTS (print ''Invalid choice. Please try again.'' w0) = Inr (ctype, w1)"
        by (subst (asm) read_choice.simps) simp
      from "1.IH"(2) [OF inp refl Some False this] frame show ?thesis by simp
    qed
  qed
qed

lemma read_amount_Inr:
  "read_amount rt prompt w = Inr (a, w1) \<Longrightarrow> crop_data w1 = crop_data w \<and> files w1 = files w"
proof (induction rt prompt w rule: read_amount.induct)
  case (1 rt prompt w)
  from "1.prems" obtain l w0 where inp: "input prompt w = Inr (l, w0)"
    by (subst (asm) read_amount.simps) (auto split: sum.splits)
  note frame = input_Inr [OF inp]
  show ?case
  proof (cases "float_of_str rt l")
    case None
    with "1.prems" inp
    have "read_amount rt prompt (print ''Please enter a valid number.'' w0) = Inr (a, w1)"
      by (subst (asm) read_amount.simps) simp
    from "1.IH"(1) [OF inp refl None this] frame show ?thesis by simp
  next
    case (Some x)
    show ?thesis
    proof (cases "float_ge_int rt x 0")
      case True
      with "1.prems" inp Some have "w1 = w0"
        by (subst (asm) read_amount.simps) simp
      then show ?thesis using frame by simp
    next
      case False
      with "1.prems" inp Some
      have "read_amount rt prompt (print ''Please enter a non-negative number.'' w0) = Inr (a, w1)"
        by (subst (asm) read_amount.simps) simp
      from "1.IH"(2) [OF inp refl Some False this] frame show ?thesis by simp
    qed
  qed
qed

lemma read_inputs_Inr:
  "read_inputs rt area avail acc w = Inr (inputs_data, w1) \<Longrightarrow>
     crop_data w1 = crop_data w \<and> files w1 = files w
     \<and> set (keys inputs_data) \<subseteq> set (keys acc) \<union> set (keys avail)"
proof (induction avail arbitrary: acc w)
  case Nil
  then show ?case by simp
next
  case (Cons p avail)
  obtain input_type info where p: "p = (input_type, info)" by (cases p)
  from Cons.prems p obtain a w0 where
    amt: "read_amount rt (amount_prompt input_type info) w = Inr (a, w0)"
    by (auto split: sum.splits)
  note frame = read_amount_Inr [OF amt]
  show ?case
  proof (cases "float_gt_int rt a 0")
    case True
    with Cons.prems p amt obtain d where
      "read_inputs rt area avail (AList.update input_type d acc) w0 = Inr (inputs_data, w1)"
      by auto
    from Cons.IH [OF this] frame p show ?thesis
      by (auto simp: keys_def dom_update)
  next
    case False
    with Cons.prems p amt have "read_inputs rt area avail acc w0 = Inr (inputs_data, w1)"
      by auto
    from Cons.IH [OF this] frame p show ?thesis
      by (auto simp: keys_def)
  qed
qed

lemma print_crop_types_frame [simp]:
  "crop_data (print_crop_types rt i types w) = crop_data w"
  "files (print_crop_types rt i types w) = files w"
  "stdin (print_crop_types rt i types w) = stdin w"
  by (induction types arbitrary: i w) (simp_all add: print_def)

lemma read_dimensions_Inr:
  "read_dimensions rt w = Inr (dims, w1) \<Longrightarrow> crop_data w1 = crop_data w \<and> files w1 = files w"
  by (auto simp: read_dimensions_def split: sum.splits prod.splits
           dest!: input_float_Inr input_int_Inr)

lemma input_crop_data_appends:
  assumes "input_crop_data rt INPUTS w = Inr w'"
  shows "\<exists>crop. crop_data w' = crop_data w @ [crop] \<and> crop_ok INPUTS crop \<and> files w' = files w"
proof -
  let ?w0 = "print_crop_types rt 1 (CROP_TYPES INPUTS) (print (CHR ''\<newline>'' # ''Select crop type:'') w)"
  from assms obtain ctype w1 where ch: "read_choice rt INPUTS ?w0 = Inr (ctype, w1)"
    by (auto simp: input_crop_data_def Let_def split: sum.splits)
  from assms ch obtain len width num_rows w2 where
    dims: "read_dimensions rt w1 = Inr ((len, width, num_rows), w2)"
    by (auto simp: input_crop_data_def Let_def split: sum.splits)
  from assms ch dims obtain avail where av: "map_of INPUTS ctype = Some avail"
    by (auto simp: input_crop_data_def Let_def split: option.splits)
  let ?w2 = "print (CHR ''\<newline>'' # ''Enter the quantity for each input (or 0 to skip):'') w2"
  from assms ch dims av obtain inputs_data w3 where
    ins: "read_inputs rt (calculate_area rt len width) avail [] ?w2 = Inr (inputs_data, w3)"
    by (auto simp: input_crop_data_def Let_def split: sum.splits)
  let ?crop = "\<lparr>crop_type = ctype, crop_length = len, crop_width = width,
                 crop_area = calculate_area rt len width, crop_num_rows = num_rows,
                 crop_inputs = inputs_data\<rparr>"
  from assms ch dims av ins
  have w': "w' = print ''Data added successfully.'' (w3\<lparr>crop_data := crop_data w3 @ [?crop]\<rparr>)"
    by (simp add: input_crop_data_def Let_def)
  from read_choice_Inr [OF ch] read_dimensions_Inr [OF dims] read_inputs_Inr [OF ins]
  have "crop_data w3 = crop_data w" "files w3 = files w"
    "set (keys inputs_data) \<subseteq> set (keys avail)"
    by (simp_all add: keys_def)
  with w' av show ?thesis
    by (auto simp: crop_ok_def print_def)
qed

subsection \<open>Update, delete and the empty export\<close>

text \<open>
  \<^bold>\<open>C9\<close>. When the record store is empty, export is a no-op: it reports that no data is
  available and returns. The world it returns differs from the one it was given only by
  that one printed line, so no file is created or overwritten and the store is unchanged.
\<close>

theorem export_empty_store_noop:
  "crop_data w = [] \<Longrightarrow>
     export_to_csv rt w = Inr (w\<lparr>stdout := stdout w @ [''No data available to export.'']\<rparr>)"
  by (simp add: export_to_csv_def print_def)

theorem export_empty_store_noop_witness:
  "crop_data empty_world = []
   \<and> export_to_csv rt_demo empty_world =
       Inr \<lparr>crop_data = [], files = [], stdin = [],
            stdout = [''No data available to export.'']\<rparr>"
proof -
  have h: "crop_data empty_world = []" by (simp add: empty_world_def)
  from export_empty_store_noop [OF h, of rt_demo] h show ?thesis
    by (simp add: empty_world_def)
qed

text \<open>
  \<^bold>\<open>C7\<close>. For every store and every valid 1-based index \<open>i\<close> that the operator types, delete
  returns, and it removes exactly the record at position \<open>i\<close>: the store is one record
  shorter, the records before position \<open>i\<close> stay where they were and the records after it
  move up by one, in their order.
\<close>

theorem delete_removes_exactly_one:
  assumes "stdin w = l # rest" and "int_of_str rt l = Some i"
    and "1 \<le> i" and "i \<le> int (length (crop_data w))"
  shows "\<exists>w'. delete_crop_data rt w = Inr w'
           \<and> crop_data w' = take (nat (i - 1)) (crop_data w) @ drop (nat i) (crop_data w)
           \<and> length (crop_data w') + 1 = length (crop_data w)
           \<and> (\<forall>j. j < nat (i - 1) \<longrightarrow> crop_data w' ! j = crop_data w ! j)
           \<and> (\<forall>j. nat (i - 1) \<le> j \<and> j < length (crop_data w')
                  \<longrightarrow> crop_data w' ! j = crop_data w ! Suc j)"
proof -
  let ?xs = "crop_data w"
  let ?w1 = "w\<lparr>stdin := rest, stdout := stdout w @ [''Enter the index of the crop to delete: '']\<rparr>"
  let ?ys = "take (nat (i - 1)) ?xs @ drop (nat i) ?xs"
  from assms have ne: "?xs \<noteq> []" by auto
  from assms have suc: "Suc (nat (i - 1)) = nat i" and lt: "nat (i - 1) < length ?xs"
    by linarith+
  have run: "delete_crop_data rt w =
      Inr (print ''Data deleted successfully.'' (?w1\<lparr>crop_data := ?ys\<rparr>))"
    using assms ne suc
    by (simp add: delete_crop_data_def input_int_Cons [OF assms(1,2)] Let_def)
  have len: "length ?ys + 1 = length ?xs" using lt suc by simp
  have low: "?ys ! j = ?xs ! j" if "j < nat (i - 1)" for j
    using that lt by (simp add: nth_append)
  have high: "?ys ! j = ?xs ! Suc j" if "nat (i - 1) \<le> j" "j < length ?ys" for j
  proof -
    from that lt have "?ys ! j = drop (nat i) ?xs ! (j - nat (i - 1))"
      by (simp add: nth_append min_def)
    also from that lt suc have "\<dots> = ?xs ! (nat i + (j - nat (i - 1)))"
      by (subst nth_drop) simp_all
    also from that suc have "nat i + (j - nat (i - 1)) = Suc j" by linarith
    finally show ?thesis .
  qed
  from run len low high show ?thesis by simp
qed

text \<open>
  \<^bold>\<open>C6\<close>. For every store and every index outside \<open>1 .. size\<close>, update returns with the
  store (and the files) as they were. When the store holds a record, it has read the index
  and reports \<^verbatim>\<open>Invalid index.\<close>; when the store is empty it returns before asking for an index,
  with \<^verbatim>\<open>No data available to update.\<close>
\<close>

theorem update_out_of_range_unchanged:
  assumes "stdin w = l # rest" and "int_of_str rt l = Some i"
    and "i < 1 \<or> int (length (crop_data w)) < i"
  shows "\<exists>w'. update_crop_data rt INPUTS w = Inr w' \<and> crop_data w' = crop_data w
           \<and> files w' = files w
           \<and> (crop_data w \<noteq> [] \<longrightarrow>
                 stdin w' = rest
               \<and> stdout w' = stdout w @ [''Enter the index of the crop to update: '',
                                          ''Invalid index.''])
           \<and> (crop_data w = [] \<longrightarrow>
                 stdin w' = stdin w
               \<and> stdout w' = stdout w @ [''No data available to update.''])"
proof (cases "crop_data w = []")
  case True
  then show ?thesis by (simp add: update_crop_data_def print_def)
next
  case False
  with assms(3) show ?thesis
    by (auto simp: update_crop_data_def input_int_Cons [OF assms(1,2)] Let_def print_def)
qed

text \<open>
  \<^bold>\<open>C5\<close>. For every store and every valid 1-based index \<open>i\<close>, when the operator's answers
  make \<^verbatim>\<open>input_crop_data\<close> enter a record \<open>new\<close>, update returns with \<open>new\<close> at position \<open>i\<close>:
  the store has the size it had, and every other record keeps its value and its position.
  No record moves to the end.
\<close>

theorem update_replaces_in_place:
  assumes "stdin w = l # rest" and "int_of_str rt l = Some i"
    and "1 \<le> i" and "i \<le> int (length (crop_data w))"
    and "input_crop_data rt INPUTS
           (w\<lparr>stdin := rest, stdout := stdout w @ [''Enter the index of the crop to update: '']\<rparr>)
         = Inr w2"
  shows "\<exists>new w'. crop_data w2 = crop_data w @ [new]
           \<and> update_crop_data rt INPUTS w = Inr w'
           \<and> crop_data w' = (crop_data w)[nat (i - 1) := new]
           \<and> length (crop_data w') = length (crop_data w)
           \<and> crop_data w' ! nat (i - 1) = new
           \<and> (\<forall>j. j < length (crop_data w) \<and> j \<noteq> nat (i - 1)
                  \<longrightarrow> crop_data w' ! j = crop_data w ! j)"
proof -
  let ?w1 = "w\<lparr>stdin := rest, stdout := stdout w @ [''Enter the index of the crop to update: '']\<rparr>"
  from input_crop_data_appends [OF assms(5)] obtain new where
    new: "crop_data w2 = crop_data w @ [new]" by auto
  from assms have ne: "crop_data w \<noteq> []" and lt: "nat (i - 1) < length (crop_data w)"
    by auto
  have "update_crop_data rt INPUTS w =
      Inr (print ''Data updated successfully.''
             (w2\<lparr>crop_data := (crop_data w)[nat (i - 1) := new]\<rparr>))"
    using assms ne new lt
    by (simp add: update_crop_data_def input_int_Cons [OF assms(1,2)] Let_def)
  with new lt show ?thesis by simp
qed

theorem delete_removes_exactly_one_witness:
  "stdin (empty_world\<lparr>crop_data := [soy_a, soy_b, corn_c], stdin := [''2'']\<rparr>) = ''2'' # []
   \<and> int_of_str rt_demo ''2'' = Some 2 \<and> (1::int) \<le> 2
   \<and> 2 \<le> int (length (crop_data (empty_world\<lparr>crop_data := [soy_a, soy_b, corn_c], stdin := [''2'']\<rparr>)))
   \<and> (\<exists>w'. delete_crop_data rt_demo
              (empty_world\<lparr>crop_data := [soy_a, soy_b, corn_c], stdin := [''2'']\<rparr>) = Inr w'
          \<and> crop_data w' = [soy_a, corn_c])"
proof -
  let ?w = "empty_world\<lparr>crop_data := [soy_a, soy_b, corn_c], stdin := [''2'']\<rparr>"
  have h1: "stdin ?w = ''2'' # []" by simp
  have h2: "int_of_str rt_demo ''2'' = Some 2"
    by (simp add: rt_demo_def parse_int_def digit_value_def)
  have h3: "(1::int) \<le> 2" by simp
  have h4: "2 \<le> int (length (crop_data ?w))" by simp
  from delete_removes_exactly_one [OF h1 h2 h3 h4] h1 h2 h3 h4 show ?thesis
    by auto
qed

theorem update_out_of_range_unchanged_witness:
  "stdin (empty_world\<lparr>crop_data := [soy_a, soy_b], stdin := [''3'', ''1'']\<rparr>) = ''3'' # [''1'']
   \<and> int_of_str rt_demo ''3'' = Some 3
   \<and> int (length (crop_data (empty_world\<lparr>crop_data := [soy_a, soy_b], stdin := [''3'', ''1'']\<rparr>))) < 3
   \<and> (\<exists>w'. update_crop_data rt_demo demo_INPUTS
              (empty_world\<lparr>crop_data := [soy_a, soy_b], stdin := [''3'', ''1'']\<rparr>) = Inr w'
          \<and> crop_data w' = [soy_a, soy_b]
          \<and> stdout w' = [''Enter the index of the crop to update: '', ''Invalid index.''])"
proof -
  let ?w = "empty_world\<lparr>crop_data := [soy_a, soy_b], stdin := [''3'', ''1'']\<rparr>"
  have h1: "stdin ?w = ''3'' # [''1'']" by simp
  have h2: "int_of_str rt_demo ''3'' = Some 3"
    by (simp add: rt_demo_def parse_int_def digit_value_def)
  have h3: "int (length (crop_data ?w)) < 3" by simp
  from update_out_of_range_unchanged [OF h1 h2 disjI2, OF h3, of demo_INPUTS] h1 h2 h3
  show ?thesis
    by (auto simp: empty_world_def)
qed

theorem update_replaces_in_place_witness:
  "stdin (empty_world\<lparr>crop_data := [soy_a, soy_b],
            stdin := [''1'', ''2'', ''300'', ''100.0'', ''7'', ''4'']\<rparr>)
     = ''1'' # [''2'', ''300'', ''100.0'', ''7'', ''4'']
   \<and> int_of_str rt_demo ''1'' = Some 1 \<and> (1::int) \<le> 1
   \<and> 1 \<le> int (length (crop_data (empty_world\<lparr>crop_data := [soy_a, soy_b],
            stdin := [''1'', ''2'', ''300'', ''100.0'', ''7'', ''4'']\<rparr>)))
   \<and> (\<exists>w'. update_crop_data rt_demo demo_INPUTS
              (empty_world\<lparr>crop_data := [soy_a, soy_b],
                 stdin := [''1'', ''2'', ''300'', ''100.0'', ''7'', ''4'']\<rparr>) = Inr w'
          \<and> crop_data w' = [corn_c, soy_b])"
proof -
  let ?w = "empty_world\<lparr>crop_data := [soy_a, soy_b],
              stdin := [''1'', ''2'', ''300'', ''100.0'', ''7'', ''4'']\<rparr>"
  let ?w1 = "?w\<lparr>stdin := [''2'', ''300'', ''100.0'', ''7'', ''4''],
                 stdout := stdout ?w @ [''Enter the index of the crop to update: '']\<rparr>"
  have h1: "stdin ?w = ''1'' # [''2'', ''300'', ''100.0'', ''7'', ''4'']" by simp
  have h2: "int_of_str rt_demo ''1'' = Some 1"
    by (simp add: rt_demo_def parse_int_def digit_value_def)
  have h3: "(1::int) \<le> 1" by simp
  have h4: "1 \<le> int (length (crop_data ?w))" by simp
  have "case input_crop_data rt_demo demo_INPUTS ?w1 of
          Inl e \<Rightarrow> False | Inr w2 \<Rightarrow> crop_data w2 = [soy_a, soy_b, corn_c]"
    by code_simp
  then obtain w2 where h5: "input_crop_data rt_demo demo_INPUTS ?w1 = Inr w2"
    and new: "crop_data w2 = [soy_a, soy_b, corn_c]"
    by (cases "input_crop_data rt_demo demo_INPUTS ?w1") auto
  from update_replaces_in_place [OF h1 h2 h3 h4 h5] new h1 h2 h3 h4 show ?thesis
    by auto
qed

subsection \<open>The column schema of export\<close>

lemma append_key_fields_eq:
  "append_key_fields input_type ks fieldnames = fieldnames @ map (\<lambda>key. input_type @ ''_'' @ key) ks"
  by (induction ks arbitrary: fieldnames) simp_all

lemma append_input_fields_eq:
  "append_input_fields kinds fieldnames = fieldnames @ concat (map kind_columns kinds)"
  by (induction kinds arbitrary: fieldnames) (simp_all add: append_key_fields_eq kind_columns_def)

lemma append_crop_fields_eq:
  "append_crop_fields crops fieldnames =
     fieldnames @ concat (map (\<lambda>crop. concat (map kind_columns (keys (crop_inputs crop)))) crops)"
  by (induction crops arbitrary: fieldnames) (simp_all add: append_input_fields_eq)

lemma export_fieldnames_eq:
  "export_fieldnames crops =
     fixed_columns @ concat (map (\<lambda>crop. concat (map kind_columns (keys (crop_inputs crop)))) crops)"
  by (simp add: export_fieldnames_def append_crop_fields_eq fixed_columns_def)

lemma concat_map_concat:
  "concat (map (\<lambda>x. concat (map f (g x))) xs) = concat (map f (concat (map g xs)))"
  by (induction xs) simp_all

text \<open>
  \<^bold>\<open>C2\<close>, as amended. For every record store, the column schema that export computes is
  the fixed columns followed by, for each record in store order and each input kind of that
  record in the record's order, one group of the four columns of that kind: a kind that
  several records carry contributes its group once for each of them. When no kind occurs
  twice among the records, this is the union schema of the specification.
\<close>

theorem export_fieldnames_per_record:
  "export_fieldnames crops =
     fixed_columns @ concat (map (\<lambda>crop. concat (map kind_columns (keys (crop_inputs crop)))) crops)
   \<and> (distinct (concat (map (\<lambda>crop. keys (crop_inputs crop)) crops))
        \<longrightarrow> export_fieldnames crops = union_fieldnames crops)"
proof -
  have "first_seen xs = xs" if "distinct xs" for xs :: "string list"
    using that by (simp add: first_seen_def distinct_remdups_id)
  then show ?thesis
    by (simp add: export_fieldnames_eq union_fieldnames_def concat_map_concat)
qed

theorem export_fieldnames_per_record_witness:
  "distinct (concat (map (\<lambda>crop. keys (crop_inputs crop)) [soy_a, soy_b]))
   \<and> export_fieldnames [soy_a, soy_b] = union_fieldnames [soy_a, soy_b]
   \<and> export_fieldnames [soy_a, soy_b] =
       [''type'', ''length'', ''width'', ''area'', ''num_rows'', ''fertilizer_name'',
        ''fertilizer_amount_per_ha'', ''fertilizer_total_amount'', ''fertilizer_unit'']"
proof -
  have h: "distinct (concat (map (\<lambda>crop. keys (crop_inputs crop)) [soy_a, soy_b]))"
    by (simp add: soy_a_def soy_b_def keys_def)
  have v: "concat (map (\<lambda>crop. concat (map kind_columns (keys (crop_inputs crop)))) [soy_a, soy_b])
             = [''fertilizer_name'', ''fertilizer_amount_per_ha'', ''fertilizer_total_amount'',
                ''fertilizer_unit'']"
    by (simp add: soy_a_def soy_b_def keys_def kind_columns_def)
  from export_fieldnames_per_record [of "[soy_a, soy_b]"] h
  have "export_fieldnames [soy_a, soy_b] = union_fieldnames [soy_a, soy_b]"
    and "export_fieldnames [soy_a, soy_b] = fixed_columns
           @ concat (map (\<lambda>crop. concat (map kind_columns (keys (crop_inputs crop)))) [soy_a, soy_b])"
    by blast+
  with h v show ?thesis by (simp add: fixed_columns_def)
qed

text \<open>
  \<^bold>\<open>C2\<close> as the specification states it does not hold. For two records that both carry
  \<^verbatim>\<open>fertilizer\<close>, export lists the four fertilizer columns twice, the union schema once.
\<close>

theorem export_fieldnames_union_counterexample:
  "export_fieldnames [soy_a, corn_c] \<noteq> union_fieldnames [soy_a, corn_c]
   \<and> export_fieldnames [soy_a, corn_c] =
       [''type'', ''length'', ''width'', ''area'', ''num_rows'',
        ''fertilizer_name'', ''fertilizer_amount_per_ha'', ''fertilizer_total_amount'',
        ''fertilizer_unit'',
        ''fertilizer_name'', ''fertilizer_amount_per_ha'', ''fertilizer_total_amount'',
        ''fertilizer_unit'']"
  by (simp add: export_fieldnames_def union_fieldnames_def soy_a_def corn_c_def keys_def
        kind_columns_def fixed_columns_def first_seen_def)

subsection \<open>Rows and their records\<close>

lemma keys_iff_map_of: "k \<in> set (keys d) \<longleftrightarrow> map_of d k \<noteq> None"
  by (simp add: keys_def map_of_eq_None_iff)

lemma import_inputs_Inr:
  "import_inputs rt row kinds acc = Inr inputs \<Longrightarrow>
     (if k \<in> set kinds \<and> k @ ''_name'' \<in> set (keys row)
      then \<exists>d. import_input rt row k = Inr d \<and> map_of inputs k = Some d
      else map_of inputs k = map_of acc k)"
proof (induction kinds arbitrary: acc)
  case Nil
  then show ?case by simp
next
  case (Cons t kinds)
  show ?case
  proof (cases "t @ ''_name'' \<in> set (keys row)")
    case True
    with Cons.prems obtain d where d: "import_input rt row t = Inr d"
      and rec: "import_inputs rt row kinds (AList.update t d acc) = Inr inputs"
      by (auto split: sum.splits)
    from Cons.IH [OF rec] d True show ?thesis
      by (auto simp: update_conv' split: if_splits)
  next
    case False
    with Cons.prems have "import_inputs rt row kinds acc = Inr inputs" by simp
    from Cons.IH [OF this] False show ?thesis
      by (auto split: if_splits)
  qed
qed

lemma import_input_Inr:
  "import_input rt row k = Inr d \<Longrightarrow>
     row_get row (k @ ''_name'') = Inr (in_name d)
     \<and> row_float rt row (k @ ''_amount_per_ha'') = Inr (in_amount_per_ha d)
     \<and> row_float rt row (k @ ''_total_amount'') = Inr (in_total_amount d)
     \<and> row_get row (k @ ''_unit'') = Inr (in_unit d)"
  by (auto simp: import_input_def split: sum.splits)

lemma import_row_Inr:
  assumes "import_row rt INPUTS row = Inr crop"
  shows "\<exists>avail. row_get row ''type'' = Inr (Some (crop_type crop))
           \<and> row_float rt row ''length'' = Inr (crop_length crop)
           \<and> row_float rt row ''width'' = Inr (crop_width crop)
           \<and> row_float rt row ''area'' = Inr (crop_area crop)
           \<and> row_int rt row ''num_rows'' = Inr (crop_num_rows crop)
           \<and> map_of INPUTS (crop_type crop) = Some avail
           \<and> import_inputs rt row (keys avail) [] = Inr (crop_inputs crop)"
  using assms
  by (auto simp: import_row_def split: sum.splits option.splits)

lemma import_row_crop_ok:
  assumes "import_row rt INPUTS row = Inr crop"
  shows "crop_ok INPUTS crop"
proof -
  from import_row_Inr [OF assms] obtain avail where
    av: "map_of INPUTS (crop_type crop) = Some avail"
    and ins: "import_inputs rt row (keys avail) [] = Inr (crop_inputs crop)"
    by blast
  have "k \<in> set (keys avail)" if "k \<in> set (keys (crop_inputs crop))" for k
    using import_inputs_Inr [OF ins, of k] that
    by (auto simp: keys_iff_map_of split: if_splits)
  with av show ?thesis by (auto simp: crop_ok_def)
qed

text \<open>
  \<^bold>\<open>C4\<close>. For every row that import turns into a record, and every input kind that
  \<^verbatim>\<open>INPUTS\<close> lists for the row's crop type, the record has an entry for the kind exactly
  when the row has a column \<^verbatim>\<open>{kind}_name\<close>, and the entry then holds the row's four
  \<^verbatim>\<open>{kind}_*\<close> fields, the two amounts converted by \<^verbatim>\<open>float\<close>. The record has no entry
  for any other kind.
\<close>

theorem import_row_measurements:
  assumes "import_row rt INPUTS row = Inr crop"
  shows "\<exists>avail. row_get row ''type'' = Inr (Some (crop_type crop))
           \<and> map_of INPUTS (crop_type crop) = Some avail
           \<and> set (keys (crop_inputs crop)) \<subseteq> set (keys avail)
           \<and> (\<forall>kind \<in> set (keys avail).
                 (kind \<in> set (keys (crop_inputs crop)) \<longleftrightarrow> kind @ ''_name'' \<in> set (keys row))
               \<and> (kind @ ''_name'' \<in> set (keys row) \<longrightarrow>
                    (\<exists>d. map_of (crop_inputs crop) kind = Some d
                       \<and> row_get row (kind @ ''_name'') = Inr (in_name d)
                       \<and> row_float rt row (kind @ ''_amount_per_ha'') = Inr (in_amount_per_ha d)
                       \<and> row_float rt row (kind @ ''_total_amount'') = Inr (in_total_amount d)
                       \<and> row_get row (kind @ ''_unit'') = Inr (in_unit d))))"
proof -
  from import_row_Inr [OF assms] obtain avail where
    ty: "row_get row ''type'' = Inr (Some (crop_type crop))"
    and av: "map_of INPUTS (crop_type crop) = Some avail"
    and ins: "import_inputs rt row (keys avail) [] = Inr (crop_inputs crop)"
    by blast
  note char = import_inputs_Inr [OF ins]
  have sub: "set (keys (crop_inputs crop)) \<subseteq> set (keys avail)"
  proof
    fix k assume "k \<in> set (keys (crop_inputs crop))"
    with char [of k] show "k \<in> set (keys avail)"
      by (auto simp: keys_iff_map_of split: if_splits)
  qed
  have each: "(kind \<in> set (keys (crop_inputs crop)) \<longleftrightarrow> kind @ ''_name'' \<in> set (keys row))
      \<and> (kind @ ''_name'' \<in> set (keys row) \<longrightarrow>
           (\<exists>d. map_of (crop_inputs crop) kind = Some d
              \<and> row_get row (kind @ ''_name'') = Inr (in_name d)
              \<and> row_float rt row (kind @ ''_amount_per_ha'') = Inr (in_amount_per_ha d)
              \<and> row_float rt row (kind @ ''_total_amount'') = Inr (in_total_amount d)
              \<and> row_get row (kind @ ''_unit'') = Inr (in_unit d)))"
    if "kind \<in> set (keys avail)" for kind
  proof (cases "kind @ ''_name'' \<in> set (keys row)")
    case True
    with char [of kind] that obtain d where
      "import_input rt row kind = Inr d" "map_of (crop_inputs crop) kind = Some d"
      by auto
    with True import_input_Inr [of rt row kind d] show ?thesis
      by (auto simp: keys_iff_map_of)
  next
    case False
    with char [of kind] show ?thesis
      by (simp add: keys_iff_map_of)
  qed
  from ty av sub each show ?thesis by blast
qed

theorem import_row_measurements_witness:
  "import_row rt_demo demo_INPUTS (read_row demo_header demo_cells_a) = Inr soy_a
   \<and> (''fertilizer'' \<in> set (keys (crop_inputs soy_a))
        \<longleftrightarrow> ''fertilizer_name'' \<in> set (keys (read_row demo_header demo_cells_a)))
   \<and> (''pesticide'' \<in> set (keys (crop_inputs soy_a))
        \<longleftrightarrow> ''pesticide_name'' \<in> set (keys (read_row demo_header demo_cells_a)))"
proof -
  have h: "import_row rt_demo demo_INPUTS (read_row demo_header demo_cells_a) = Inr soy_a"
    by code_simp
  have av: "map_of demo_INPUTS (crop_type soy_a) =
      Some [(''fertilizer'', \<lparr>info_name = ''NPK'', info_unit = ''kg''\<rparr>),
            (''pesticide'', \<lparr>info_name = ''Glyphosate'', info_unit = ''L''\<rparr>)]"
    by (simp add: demo_INPUTS_def soy_a_def)
  from import_row_measurements [OF h] av h show ?thesis
    by (auto simp: keys_def)
qed

subsection \<open>Import replaces the store or leaves it alone\<close>

lemma import_rows_acc:
  "import_rows rt INPUTS rows acc =
     (case import_rows rt INPUTS rows [] of Inl e \<Rightarrow> Inl e | Inr crops \<Rightarrow> Inr (acc @ crops))"
proof (induction rows arbitrary: acc)
  case Nil
  then show ?case by simp
next
  case (Cons row rows)
  show ?case
  proof (cases "import_row rt INPUTS row")
    case (Inl e)
    then show ?thesis by simp
  next
    case (Inr crop)
    from Cons.IH [of "acc @ [crop]"] Cons.IH [of "[crop]"] Inr show ?thesis
      by (simp split: sum.splits)
  qed
qed

lemma import_rows_all:
  "list_all2 (\<lambda>row crop. import_row rt INPUTS row = Inr crop) rows crops \<Longrightarrow>
     import_rows rt INPUTS rows [] = Inr crops"
proof (induction rows crops rule: list_all2_induct)
  case Nil
  then show ?case by simp
next
  case (Cons row rows crop crops)
  then show ?case
    by (simp add: import_rows_acc [of rt INPUTS rows "[crop]"])
qed

lemma import_rows_Inr:
  "import_rows rt INPUTS rows [] = Inr crops \<Longrightarrow>
     list_all2 (\<lambda>row crop. import_row rt INPUTS row = Inr crop) rows crops"
proof (induction rows arbitrary: crops)
  case Nil
  then show ?case by simp
next
  case (Cons row rows)
  from Cons.prems obtain crop where c: "import_row rt INPUTS row = Inr crop"
    by (auto split: sum.splits)
  with Cons.prems obtain rest where r: "import_rows rt INPUTS rows [] = Inr rest"
    and crops: "crops = crop # rest"
    by (auto simp: import_rows_acc [of rt INPUTS rows "[crop]"] split: sum.splits)
  from Cons.IH [OF r] c crops show ?case by simp
qed

lemma import_rows_first_error:
  assumes "\<forall>r \<in> set pre. \<exists>crop. import_row rt INPUTS r = Inr crop"
    and "import_row rt INPUTS row = Inl e"
  shows "import_rows rt INPUTS (pre @ row # post) acc = Inl e"
  using assms
proof (induction pre arbitrary: acc)
  case Nil
  then show ?case by simp
next
  case (Cons r pre)
  then show ?case by (auto split: sum.splits)
qed

lemma import_from_csv_Cons:
  assumes "stdin w = filename # rest"
  shows "import_from_csv rt INPUTS w =
     (let w1 = w\<lparr>stdin := rest,
                  stdout := stdout w @ [''Enter the name of the CSV file to import: '']\<rparr>
      in case read_csv rt INPUTS w filename of
           Inr imported_data \<Rightarrow>
             Inr (print (''Successfully imported ''
                           @ str_of_int rt (int (length imported_data))
                           @ '' crops from '' @ filename @ ''.'')
                    (w1\<lparr>crop_data := imported_data\<rparr>))
         | Inl (FileNotFoundError f) \<Rightarrow>
             Inr (print (''File '' @ [CHR 0x27] @ filename @ [CHR 0x27]
                           @ '' not found. Please make sure the file exists and try again.'')
                    w1)
         | Inl (KeyError k) \<Rightarrow>
             Inr (print (''Error: Missing column in CSV file. '' @ str_of_KeyError rt k) w1)
         | Inl (ValueError msg) \<Rightarrow>
             Inr (print (''Error: Invalid data in CSV file. '' @ msg) w1)
         | Inl e \<Rightarrow> Inl e)"
  using assms
  by (simp add: import_from_csv_def input_Cons Let_def read_csv_def)

lemma import_from_csv_Inr:
  assumes "import_from_csv rt INPUTS w = Inr w'"
  shows "files w' = files w
     \<and> (crop_data w' = crop_data w
        \<or> (\<exists>filename rest csvfile. stdin w = filename # rest
              \<and> map_of (files w) filename = Some (CsvFile csvfile)
              \<and> import_rows rt INPUTS (DictReader csvfile) [] = Inr (crop_data w')))"
proof -
  from assms obtain filename rest where st: "stdin w = filename # rest"
    by (cases "stdin w") (auto simp: import_from_csv_def input_def)
  from assms show ?thesis
    unfolding import_from_csv_Cons [OF st, of rt INPUTS]
    by (auto simp: Let_def read_csv_def print_def st
             split: sum.splits error.splits option.splits node.splits)
qed

text \<open>
  Reading a row fails with an error that import handles or with \<^verbatim>\<open>TypeError\<close>, which
  \<^verbatim>\<open>float\<close> and \<^verbatim>\<open>int\<close> raise on the \<^verbatim>\<open>None\<close> of a cell that a short row lacks.
\<close>

lemma row_get_Inl: "row_get row key = Inl e \<Longrightarrow> handled e"
  by (auto simp: row_get_def handled_def split: option.splits)

lemma py_float_Inl: "py_float rt x = Inl e \<Longrightarrow> handled e \<or> e = TypeError"
  by (auto simp: py_float_def handled_def split: option.splits)

lemma py_int_Inl: "py_int rt x = Inl e \<Longrightarrow> handled e \<or> e = TypeError"
  by (auto simp: py_int_def handled_def split: option.splits)

lemma row_float_Inl: "row_float rt row key = Inl e \<Longrightarrow> handled e \<or> e = TypeError"
  by (auto simp: row_float_def split: sum.splits dest: row_get_Inl py_float_Inl)

lemma row_int_Inl: "row_int rt row key = Inl e \<Longrightarrow> handled e \<or> e = TypeError"
  by (auto simp: row_int_def split: sum.splits dest: row_get_Inl py_int_Inl)

lemma import_input_Inl: "import_input rt row k = Inl e \<Longrightarrow> handled e \<or> e = TypeError"
  by (auto simp: import_input_def split: sum.splits dest: row_get_Inl row_float_Inl)

lemma import_inputs_Inl:
  "import_inputs rt row kinds acc = Inl e \<Longrightarrow> handled e \<or> e = TypeError"
  by (induction kinds arbitrary: acc)
     (auto split: if_splits sum.splits dest: import_input_Inl)

lemma import_row_Inl:
  assumes "import_row rt INPUTS row = Inl e"
  shows "handled e \<or> e = TypeError"
proof -
  have key: "handled (KeyError k)" for k by (simp add: handled_def)
  from assms show ?thesis
    unfolding import_row_def
    by (auto split: sum.splits option.splits
             dest: row_get_Inl row_float_Inl row_int_Inl import_inputs_Inl simp: key)
qed

lemma import_rows_Inl:
  "import_rows rt INPUTS rows acc = Inl e \<Longrightarrow> handled e \<or> e = TypeError"
  by (induction rows arbitrary: acc) (auto split: sum.splits dest: import_row_Inl)

lemma import_handled:
  assumes "stdin w = filename # rest" and "read_csv rt INPUTS w filename = Inl e"
    and "handled e"
  shows "\<exists>w'. import_from_csv rt INPUTS w = Inr w' \<and> crop_data w' = crop_data w
           \<and> files w' = files w \<and> stdin w' = rest"
  using assms(2,3)
  unfolding import_from_csv_Cons [OF assms(1), of rt INPUTS]
  by (cases e) (simp_all add: handled_def Let_def print_def)

text \<open>
  Where import is all-or-nothing. Once the operator has named the file: if the file is
  missing, or if the first row that cannot be imported fails with an error that import
  handles (\<^verbatim>\<open>KeyError\<close> for a missing column or a crop type that \<^verbatim>\<open>INPUTS\<close> lacks,
  \<^verbatim>\<open>ValueError\<close> for a cell that is no number), import returns with the store and the files
  as they were; if the file is read to its end and every row can be imported, it returns
  with the store replaced by the rows' records, in order. Whenever import returns with a
  store other than the one it started with, every row was imported.
\<close>

theorem import_handled_all_or_nothing:
  assumes "stdin w = filename # rest"
  shows "(map_of (files w) filename = None \<longrightarrow>
            (\<exists>w'. import_from_csv rt INPUTS w = Inr w' \<and> crop_data w' = crop_data w
                \<and> files w' = files w))
       \<and> (\<forall>csvfile pre row post e.
            map_of (files w) filename = Some (CsvFile csvfile)
            \<and> DictReader csvfile = pre @ row # post
            \<and> (\<forall>r \<in> set pre. \<exists>crop. import_row rt INPUTS r = Inr crop)
            \<and> import_row rt INPUTS row = Inl e \<and> handled e
            \<longrightarrow> (\<exists>w'. import_from_csv rt INPUTS w = Inr w' \<and> crop_data w' = crop_data w
                    \<and> files w' = files w))
       \<and> (\<forall>csvfile crops.
            map_of (files w) filename = Some (CsvFile csvfile)
            \<and> list_all2 (\<lambda>row crop. import_row rt INPUTS row = Inr crop) (DictReader csvfile) crops
            \<longrightarrow> (\<exists>w'. import_from_csv rt INPUTS w = Inr w' \<and> crop_data w' = crops
                    \<and> files w' = files w))
       \<and> (\<forall>w'. import_from_csv rt INPUTS w = Inr w' \<and> crop_data w' \<noteq> crop_data w
            \<longrightarrow> (\<exists>csvfile. map_of (files w) filename = Some (CsvFile csvfile)
                    \<and> list_all2 (\<lambda>row crop. import_row rt INPUTS row = Inr crop)
                         (DictReader csvfile) (crop_data w')))"
proof (intro conjI allI impI)
  assume "map_of (files w) filename = None"
  then have "read_csv rt INPUTS w filename = Inl (FileNotFoundError filename)"
    by (simp add: read_csv_def)
  from import_handled [OF assms this]
  show "\<exists>w'. import_from_csv rt INPUTS w = Inr w' \<and> crop_data w' = crop_data w
          \<and> files w' = files w"
    by (auto simp: handled_def)
next
  fix csvfile pre row post e
  assume a: "map_of (files w) filename = Some (CsvFile csvfile)
      \<and> DictReader csvfile = pre @ row # post
      \<and> (\<forall>r \<in> set pre. \<exists>crop. import_row rt INPUTS r = Inr crop)
      \<and> import_row rt INPUTS row = Inl e \<and> handled e"
  then have "import_rows rt INPUTS (pre @ row # post) [] = Inl e"
    by (intro import_rows_first_error) auto
  with a have "read_csv rt INPUTS w filename = Inl e"
    by (simp add: read_csv_def)
  from import_handled [OF assms this] a
  show "\<exists>w'. import_from_csv rt INPUTS w = Inr w' \<and> crop_data w' = crop_data w
          \<and> files w' = files w"
    by auto
next
  fix csvfile crops
  assume a: "map_of (files w) filename = Some (CsvFile csvfile)
      \<and> list_all2 (\<lambda>row crop. import_row rt INPUTS row = Inr crop) (DictReader csvfile) crops"
  then have "read_csv rt INPUTS w filename = Inr crops"
    by (simp add: read_csv_def import_rows_all)
  then show "\<exists>w'. import_from_csv rt INPUTS w = Inr w' \<and> crop_data w' = crops
          \<and> files w' = files w"
    unfolding import_from_csv_Cons [OF assms, of rt INPUTS]
    by (simp add: Let_def print_def)
next
  fix w'
  assume a: "import_from_csv rt INPUTS w = Inr w' \<and> crop_data w' \<noteq> crop_data w"
  with import_from_csv_Inr [of rt INPUTS w w'] assms
  obtain csvfile where "map_of (files w) filename = Some (CsvFile csvfile)"
    and "import_rows rt INPUTS (DictReader csvfile) [] = Inr (crop_data w')"
    by auto
  then show "\<exists>csvfile. map_of (files w) filename = Some (CsvFile csvfile)
      \<and> list_all2 (\<lambda>row crop. import_row rt INPUTS row = Inr crop)
           (DictReader csvfile) (crop_data w')"
    by (auto dest: import_rows_Inr)
qed

theorem import_handled_all_or_nothing_witness:
  "stdin (demo_file_world [demo_header, demo_cells_a, demo_cells_b]) = ''crop_data.csv'' # []
   \<and> (\<exists>w'. import_from_csv rt_demo demo_INPUTS
              (demo_file_world [demo_header, demo_cells_a, demo_cells_b]) = Inr w'
          \<and> crop_data w' = [corn_c])
   \<and> (\<exists>w'. import_from_csv rt_demo demo_INPUTS
              (demo_file_world [demo_header, demo_cells_a]) = Inr w'
          \<and> crop_data w' = [soy_a])"
proof -
  let ?bad = "demo_file_world [demo_header, demo_cells_a, demo_cells_b]"
  let ?good = "demo_file_world [demo_header, demo_cells_a]"
  let ?ra = "read_row demo_header demo_cells_a"
  let ?rb = "read_row demo_header demo_cells_b"
  let ?msg = "''could not convert string to float: '' @ [CHR 0x27, CHR 0x27]"
  have st: "stdin ?bad = ''crop_data.csv'' # []" "stdin ?good = ''crop_data.csv'' # []"
    by (simp_all add: demo_file_world_def)
  have fb: "map_of (files ?bad) ''crop_data.csv'' = Some (CsvFile [demo_header, demo_cells_a, demo_cells_b])"
    and fg: "map_of (files ?good) ''crop_data.csv'' = Some (CsvFile [demo_header, demo_cells_a])"
    by (simp_all add: demo_file_world_def)
  have ne: "demo_cells_a \<noteq> []" "demo_cells_b \<noteq> []"
    by (simp_all add: demo_cells_a_def demo_cells_b_def)
  have rb: "DictReader [demo_header, demo_cells_a, demo_cells_b] = [?ra] @ ?rb # []"
    and rg: "DictReader [demo_header, demo_cells_a] = [?ra]"
    using ne by simp_all
  have a: "import_row rt_demo demo_INPUTS ?ra = Inr soy_a" by code_simp
  have b: "import_row rt_demo demo_INPUTS ?rb = Inl (ValueError ?msg)" by code_simp
  have hb: "handled (ValueError ?msg)" by (simp add: handled_def)
  from import_handled_all_or_nothing [OF st(1), of rt_demo demo_INPUTS] fb rb a b hb
  have "\<exists>w'. import_from_csv rt_demo demo_INPUTS ?bad = Inr w' \<and> crop_data w' = crop_data ?bad
          \<and> files w' = files ?bad"
    by (elim conjE allE [of _ "[demo_header, demo_cells_a, demo_cells_b]"] allE [of _ "[?ra]"]
          allE [of _ ?rb] allE [of _ "[]"] allE [of _ "ValueError ?msg"]) simp
  moreover
  from import_handled_all_or_nothing [OF st(2), of rt_demo demo_INPUTS] fg rg a
  have "\<exists>w'. import_from_csv rt_demo demo_INPUTS ?good = Inr w' \<and> crop_data w' = [soy_a]
          \<and> files w' = files ?good"
    by (elim conjE allE [of _ "[demo_header, demo_cells_a]"] allE [of _ "[soy_a]"]) simp
  ultimately show ?thesis using st(1)
    by (auto simp: demo_file_world_def)
qed

text \<open>
  \<^bold>\<open>C3\<close>. Import is not all-or-nothing on every file. Take a file whose header is the one
  export writes and whose only other row is the single cell \<^verbatim>\<open>Soybean\<close>, as a file cut off
  or edited by hand may be. \<^verbatim>\<open>DictReader\<close> fills the cells that the row lacks with
  \<^verbatim>\<open>None\<close>, \<^verbatim>\<open>float(row['length'])\<close> raises \<^verbatim>\<open>TypeError\<close>, and import has no \<^verbatim>\<open>except\<close> clause
  for it: the exception leaves import and the program stops, instead of import reporting
  the row and returning with the store as it was.
\<close>

theorem import_short_row_raises:
  "map_of (read_row demo_header [''Soybean'']) ''type'' = Some (Some ''Soybean'')
   \<and> map_of (read_row demo_header [''Soybean'']) ''length'' = Some None
   \<and> import_row rt_demo demo_INPUTS (read_row demo_header [''Soybean'']) = Inl TypeError
   \<and> import_from_csv rt_demo demo_INPUTS (demo_file_world [demo_header, [''Soybean'']])
       = Inl TypeError"
  by code_simp

subsection \<open>An empty amount cell\<close>

lemma import_input_empty_cell:
  assumes "float_of_str rt [] = None"
    and "kind @ ''_name'' \<in> set (keys row)"
    and "empty_amount rt row kind"
  shows "import_input rt row kind =
           Inl (ValueError (''could not convert string to float: '' @ repr_str rt []))"
proof -
  from assms(2) obtain name where "row_get row (kind @ ''_name'') = Inr name"
    by (auto simp: keys_iff_map_of row_get_def)
  moreover have "row_float rt row key =
      Inl (ValueError (''could not convert string to float: '' @ repr_str rt []))"
    if "map_of row key = Some (Some [])" for key
    using that assms(1) by (simp add: row_float_def row_get_def py_float_def)
  ultimately show ?thesis
    using assms(3) by (auto simp: import_input_def empty_amount_def split: sum.splits)
qed

lemma import_inputs_first_error:
  assumes "kind @ ''_name'' \<in> set (keys row)"
    and "import_input rt row kind = Inl e"
    and "\<forall>k \<in> set before. k @ ''_name'' \<in> set (keys row)
           \<longrightarrow> (\<exists>d. import_input rt row k = Inr d) \<or> import_input rt row k = Inl e"
  shows "import_inputs rt row (before @ kind # after) acc = Inl e"
  using assms(3)
proof (induction before arbitrary: acc)
  case Nil
  with assms(1,2) show ?case by simp
next
  case (Cons t before)
  from Cons.prems have rest: "\<forall>k \<in> set before. k @ ''_name'' \<in> set (keys row)
      \<longrightarrow> (\<exists>d. import_input rt row k = Inr d) \<or> import_input rt row k = Inl e"
    by simp
  show ?case
  proof (cases "t @ ''_name'' \<in> set (keys row)")
    case True
    with Cons.prems have "(\<exists>d. import_input rt row t = Inr d) \<or> import_input rt row t = Inl e"
      by simp
    with True Cons.IH [OF rest] show ?thesis by auto
  next
    case False
    with Cons.IH [OF rest] show ?thesis by simp
  qed
qed

text \<open>
  \<^bold>\<open>C10\<close>. Suppose Python's \<^verbatim>\<open>float\<close> rejects the empty string. Let a row of the file have
  the column \<^verbatim>\<open>{kind}_name\<close> for an input kind of the row's crop type, and let it have an
  empty amount for that kind, with nothing else wrong before it: the rows above it can be
  imported, its five fixed cells convert, and each kind that \<^verbatim>\<open>INPUTS\<close> lists before this
  one and that has its name column can be read or has an empty amount too. Nothing is asked
  of the kinds that \<^verbatim>\<open>INPUTS\<close> lists after it, of the rows below, or of how the file ends.
  Then import does not skip the kind: it converts an empty cell, the conversion raises
  \<^verbatim>\<open>ValueError\<close>, and import returns having printed the prompt and
  \<^verbatim>\<open>Error: Invalid data in CSV file.\<close> with the message of the conversion, the store and the
  files being as they were.
\<close>

theorem import_empty_amount_aborts:
  assumes "float_of_str rt [] = None"
    and "stdin w = filename # rest"
    and "map_of (files w) filename = Some (CsvFile csvfile)
         \<or> (\<exists>e. map_of (files w) filename = Some (Damaged csvfile e))"
    and "DictReader csvfile = pre @ row # post"
    and "\<forall>r \<in> set pre. \<exists>crop. import_row rt INPUTS r = Inr crop"
    and "map_of row ''type'' = Some (Some ctype)"
    and "map_of INPUTS ctype = Some avail"
    and "\<exists>v. row_float rt row ''length'' = Inr v"
    and "\<exists>v. row_float rt row ''width'' = Inr v"
    and "\<exists>v. row_float rt row ''area'' = Inr v"
    and "\<exists>n. row_int rt row ''num_rows'' = Inr n"
    and "keys avail = before @ kind # after"
    and "\<forall>k \<in> set before. k @ ''_name'' \<in> set (keys row)
           \<longrightarrow> (\<exists>d. import_input rt row k = Inr d) \<or> empty_amount rt row k"
    and "kind @ ''_name'' \<in> set (keys row)"
    and "empty_amount rt row kind"
  shows "import_from_csv rt INPUTS w =
           Inr (w\<lparr>stdin := rest,
                  stdout := stdout w @
                    [''Enter the name of the CSV file to import: '',
                     ''Error: Invalid data in CSV file. could not convert string to float: ''
                       @ repr_str rt []]\<rparr>)"
proof -
  let ?e = "ValueError (''could not convert string to float: '' @ repr_str rt [])"
  have kind: "import_input rt row kind = Inl ?e"
    by (rule import_input_empty_cell [OF assms(1,14,15)])
  have "\<forall>k \<in> set before. k @ ''_name'' \<in> set (keys row)
      \<longrightarrow> (\<exists>d. import_input rt row k = Inr d) \<or> import_input rt row k = Inl ?e"
    using assms(13) import_input_empty_cell [OF assms(1)] by blast
  from import_inputs_first_error [OF assms(14) kind this] assms(12)
  have "import_inputs rt row (keys avail) [] = Inl ?e" by simp
  with assms(6-11) have "import_row rt INPUTS row = Inl ?e"
    by (auto simp: import_row_def row_get_def)
  with assms(5) have "import_rows rt INPUTS (pre @ row # post) [] = Inl ?e"
    by (intro import_rows_first_error)
  with assms(3,4) have "read_csv rt INPUTS w filename = Inl ?e"
    by (auto simp: read_csv_def)
  then show ?thesis
    unfolding import_from_csv_Cons [OF assms(2), of rt INPUTS]
    by (simp add: Let_def print_def)
qed

theorem import_empty_amount_aborts_witness:
  "float_of_str rt_demo [] = None
   \<and> export_to_csv rt_demo (empty_world\<lparr>crop_data := [soy_full, soy_b]\<rparr>) =
       Inr \<lparr>crop_data = [soy_full, soy_b],
            files = [(''crop_data.csv'',
                      CsvFile [demo_header_full, demo_cells_full, demo_cells_none])],
            stdin = [],
            stdout = [''Data exported to crop_data.csv successfully.'']\<rparr>
   \<and> import_row rt_demo demo_INPUTS (read_row demo_header_full demo_cells_full) = Inr soy_full
   \<and> empty_amount rt_demo (read_row demo_header_full demo_cells_none) ''fertilizer''
   \<and> empty_amount rt_demo (read_row demo_header_full demo_cells_none) ''pesticide''
   \<and> import_from_csv rt_demo demo_INPUTS
        (demo_file_world [demo_header_full, demo_cells_full, demo_cells_none]) =
       Inr \<lparr>crop_data = [corn_c],
            files = [(''crop_data.csv'',
                      CsvFile [demo_header_full, demo_cells_full, demo_cells_none])],
            stdin = [],
            stdout = [''Enter the name of the CSV file to import: '',
                      ''Error: Invalid data in CSV file. could not convert string to float: ''
                        @ [CHR 0x27, CHR 0x27]]\<rparr>"
proof -
  let ?csv = "[demo_header_full, demo_cells_full, demo_cells_none]"
  let ?w = "demo_file_world ?csv"
  let ?ra = "read_row demo_header_full demo_cells_full"
  let ?rb = "read_row demo_header_full demo_cells_none"
  let ?avail = "[(''fertilizer'', \<lparr>info_name = ''NPK'', info_unit = ''kg''\<rparr>),
                 (''pesticide'', \<lparr>info_name = ''Glyphosate'', info_unit = ''L''\<rparr>)]"
  have h1: "float_of_str rt_demo [] = None"
    by (simp add: rt_demo_def parse_float_def parse_int_def)
  have ex: "export_to_csv rt_demo (empty_world\<lparr>crop_data := [soy_full, soy_b]\<rparr>) =
       Inr \<lparr>crop_data = [soy_full, soy_b],
            files = [(''crop_data.csv'', CsvFile ?csv)],
            stdin = [],
            stdout = [''Data exported to crop_data.csv successfully.'']\<rparr>"
    by code_simp
  have h2: "stdin ?w = ''crop_data.csv'' # []"
    and f: "map_of (files ?w) ''crop_data.csv'' = Some (CsvFile ?csv)"
    by (simp_all add: demo_file_world_def)
  note h3 = disjI1 [OF f]
  have ne: "demo_cells_full \<noteq> []" "demo_cells_none \<noteq> []"
    by (simp_all add: demo_cells_full_def demo_cells_none_def demo_cells_a_def demo_cells_b_def)
  then have h4: "DictReader ?csv = [?ra] @ ?rb # []"
    by simp
  have a: "import_row rt_demo demo_INPUTS ?ra = Inr soy_full" by code_simp
  then have h5: "\<forall>r \<in> set [?ra]. \<exists>crop. import_row rt_demo demo_INPUTS r = Inr crop"
    by simp
  have h6: "map_of ?rb ''type'' = Some (Some ''Soybean'')" by code_simp
  have h7: "map_of demo_INPUTS ''Soybean'' = Some ?avail" by (simp add: demo_INPUTS_def)
  have "row_float rt_demo ?rb ''length'' = Inr 100" by code_simp
  then have h8: "\<exists>v. row_float rt_demo ?rb ''length'' = Inr v" ..
  have "row_float rt_demo ?rb ''width'' = Inr 100" by code_simp
  then have h9: "\<exists>v. row_float rt_demo ?rb ''width'' = Inr v" ..
  have "row_float rt_demo ?rb ''area'' = Inr 1" by code_simp
  then have h10: "\<exists>v. row_float rt_demo ?rb ''area'' = Inr v" ..
  have "row_int rt_demo ?rb ''num_rows'' = Inr 5" by code_simp
  then have h11: "\<exists>n. row_int rt_demo ?rb ''num_rows'' = Inr n" ..
  have h12: "keys ?avail = [''fertilizer''] @ ''pesticide'' # []" by (simp add: keys_def)
  have ef: "empty_amount rt_demo ?rb ''fertilizer''" by code_simp
  have ep: "empty_amount rt_demo ?rb ''pesticide''" by code_simp
  from ef have h13: "\<forall>k \<in> set [''fertilizer'']. k @ ''_name'' \<in> set (keys ?rb)
      \<longrightarrow> (\<exists>d. import_input rt_demo ?rb k = Inr d) \<or> empty_amount rt_demo ?rb k"
    by simp
  have h14: "''pesticide'' @ ''_name'' \<in> set (keys ?rb)" by code_simp
  from import_empty_amount_aborts [OF h1 h2 h3 h4 h5 h6 h7 h8 h9 h10 h11 h12 h13 h14 ep]
    h1 ex a ef ep
  show ?thesis
    by (simp add: demo_file_world_def rt_demo_def)
qed

subsection \<open>The operations keep the invariant\<close>

lemma store_ok_append: "store_ok INPUTS (xs @ ys) \<longleftrightarrow> store_ok INPUTS xs \<and> store_ok INPUTS ys"
  by (simp add: store_ok_def)

lemma store_ok_update:
  "store_ok INPUTS xs \<Longrightarrow> crop_ok INPUTS x \<Longrightarrow> store_ok INPUTS (xs[i := x])"
  unfolding store_ok_def list_all_iff
  using set_update_subset_insert [of xs i x] by auto

lemma store_ok_delete:
  "store_ok INPUTS xs \<Longrightarrow> store_ok INPUTS (take i xs @ drop j xs)"
  unfolding store_ok_def list_all_iff
  by (auto dest: in_set_takeD in_set_dropD)

lemma import_rows_store_ok:
  assumes "import_rows rt INPUTS rows [] = Inr crops"
  shows "store_ok INPUTS crops"
proof -
  from import_rows_Inr [OF assms]
  have "list_all2 (\<lambda>row crop. import_row rt INPUTS row = Inr crop) rows crops" .
  then have "\<forall>crop \<in> set crops. \<exists>row. import_row rt INPUTS row = Inr crop"
    by (fastforce simp: list_all2_conv_all_nth in_set_conv_nth)
  then show ?thesis
    by (auto simp: store_ok_def list_all_iff dest: import_row_crop_ok)
qed

lemma enter_store_ok:
  assumes "store_ok INPUTS (crop_data w)" and "input_crop_data rt INPUTS w = Inr w'"
  shows "store_ok INPUTS (crop_data w')"
  using input_crop_data_appends [OF assms(2)] assms(1)
  by (auto simp: store_ok_append) (simp add: store_ok_def)

lemma update_store_ok:
  assumes "store_ok INPUTS (crop_data w)" and "update_crop_data rt INPUTS w = Inr w'"
  shows "store_ok INPUTS (crop_data w')"
proof (cases "crop_data w = []")
  case True
  with assms show ?thesis by (auto simp: update_crop_data_def)
next
  case False
  with assms(2) obtain i w1 where
    idx: "input_int rt ''Enter the index of the crop to update: '' w = Inr (i, w1)"
    by (auto simp: update_crop_data_def split: sum.splits)
  from input_int_Inr [OF idx] have frame: "crop_data w1 = crop_data w" by simp
  show ?thesis
  proof (cases "0 \<le> i - 1 \<and> i - 1 < int (length (crop_data w1))")
    case True
    with assms(2) False idx obtain w2 where
      enter: "input_crop_data rt INPUTS w1 = Inr w2"
      by (auto simp: update_crop_data_def Let_def split: sum.splits)
    from input_crop_data_appends [OF enter] frame obtain new where
      new: "crop_data w2 = crop_data w @ [new]" "crop_ok INPUTS new"
      by auto
    from assms(2) False idx True enter new
    have "crop_data w' = (crop_data w)[nat (i - 1) := new]"
      by (auto simp: update_crop_data_def Let_def split: if_splits)
    with assms(1) new(2) show ?thesis by (simp add: store_ok_update)
  next
    case out: False
    with assms(2) False idx have "crop_data w' = crop_data w1"
      by (auto simp: update_crop_data_def Let_def)
    with assms(1) frame show ?thesis by simp
  qed
qed

lemma delete_store_ok:
  assumes "store_ok INPUTS (crop_data w)" and "delete_crop_data rt w = Inr w'"
  shows "store_ok INPUTS (crop_data w')"
proof (cases "crop_data w = []")
  case True
  with assms show ?thesis by (auto simp: delete_crop_data_def)
next
  case False
  with assms(2) obtain i w1 where
    idx: "input_int rt ''Enter the index of the crop to delete: '' w = Inr (i, w1)"
    by (auto simp: delete_crop_data_def split: sum.splits)
  from input_int_Inr [OF idx] have frame: "crop_data w1 = crop_data w" by simp
  from assms(2) False idx frame
  have "crop_data w' = crop_data w
      \<or> crop_data w' = take (nat (i - 1)) (crop_data w) @ drop (Suc (nat (i - 1))) (crop_data w)"
    by (auto simp: delete_crop_data_def Let_def split: if_splits)
  with assms(1) show ?thesis by (auto simp: store_ok_delete)
qed

lemma import_store_ok:
  assumes "store_ok INPUTS (crop_data w)" and "import_from_csv rt INPUTS w = Inr w'"
  shows "store_ok INPUTS (crop_data w')"
  using import_from_csv_Inr [OF assms(2)] assms(1)
  by (auto dest: import_rows_store_ok)

text \<open>
  \<^bold>\<open>C8\<close>. Every operation that changes the store keeps its invariant: if every record of
  the store has a crop type that is a key of \<^verbatim>\<open>INPUTS\<close> and only input kinds that \<^verbatim>\<open>INPUTS\<close>
  lists for that crop type, then so has every record of the store with which enter, update,
  delete or import returns. The empty store, with which the script starts, has the
  invariant.
\<close>

theorem store_invariant_preserved:
  assumes "store_ok INPUTS (crop_data w)"
  shows "(\<forall>w'. input_crop_data rt INPUTS w = Inr w' \<longrightarrow> store_ok INPUTS (crop_data w'))
       \<and> (\<forall>w'. update_crop_data rt INPUTS w = Inr w' \<longrightarrow> store_ok INPUTS (crop_data w'))
       \<and> (\<forall>w'. delete_crop_data rt w = Inr w' \<longrightarrow> store_ok INPUTS (crop_data w'))
       \<and> (\<forall>w'. import_from_csv rt INPUTS w = Inr w' \<longrightarrow> store_ok INPUTS (crop_data w'))
       \<and> store_ok INPUTS ([] :: 'a crop list)"
proof (intro conjI allI impI)
  show "store_ok INPUTS ([] :: 'a crop list)" by (simp add: store_ok_def)
qed (rule enter_store_ok update_store_ok delete_store_ok import_store_ok, rule assms, assumption)+

theorem store_invariant_preserved_witness:
  "store_ok demo_INPUTS (crop_data demo_input_world)
   \<and> (\<exists>w'. input_crop_data rt_demo demo_INPUTS demo_input_world = Inr w'
          \<and> store_ok demo_INPUTS (crop_data w'))
   \<and> (\<exists>w'. update_crop_data rt_demo demo_INPUTS demo_input_world = Inr w'
          \<and> store_ok demo_INPUTS (crop_data w'))
   \<and> (\<exists>w'. delete_crop_data rt_demo demo_input_world = Inr w'
          \<and> store_ok demo_INPUTS (crop_data w'))
   \<and> (\<exists>w'. import_from_csv rt_demo demo_INPUTS demo_input_world = Inr w'
          \<and> store_ok demo_INPUTS (crop_data w'))
   \<and> store_ok demo_INPUTS (crop_data (demo_file_world [demo_header, demo_cells_a]))
   \<and> (\<exists>w'. import_from_csv rt_demo demo_INPUTS (demo_file_world [demo_header, demo_cells_a])
            = Inr w'
          \<and> crop_data w' = [soy_a] \<and> store_ok demo_INPUTS (crop_data w'))"
proof -
  let ?f = "demo_file_world [demo_header, demo_cells_a]"
  have hf: "store_ok demo_INPUTS (crop_data ?f)" by code_simp
  have "case import_from_csv rt_demo demo_INPUTS ?f of
          Inl e \<Rightarrow> False | Inr w' \<Rightarrow> crop_data w' = [soy_a]"
    by code_simp
  then obtain w5 where w5: "import_from_csv rt_demo demo_INPUTS ?f = Inr w5"
    "crop_data w5 = [soy_a]"
    by (cases "import_from_csv rt_demo demo_INPUTS ?f") auto
  from store_invariant_preserved [OF hf, of rt_demo] w5
  have replaced: "\<exists>w'. import_from_csv rt_demo demo_INPUTS ?f = Inr w'
      \<and> crop_data w' = [soy_a] \<and> store_ok demo_INPUTS (crop_data w')"
    by blast
  have h: "store_ok demo_INPUTS (crop_data demo_input_world)" by code_simp
  note inv = store_invariant_preserved [OF h, of rt_demo]
  have "\<not> isl (input_crop_data rt_demo demo_INPUTS demo_input_world)" by code_simp
  then obtain w1 where "input_crop_data rt_demo demo_INPUTS demo_input_world = Inr w1"
    by (cases "input_crop_data rt_demo demo_INPUTS demo_input_world") auto
  moreover
  have "\<not> isl (update_crop_data rt_demo demo_INPUTS demo_input_world)" by code_simp
  then obtain w2 where "update_crop_data rt_demo demo_INPUTS demo_input_world = Inr w2"
    by (cases "update_crop_data rt_demo demo_INPUTS demo_input_world") auto
  moreover
  have "\<not> isl (delete_crop_data rt_demo demo_input_world)" by code_simp
  then obtain w3 where "delete_crop_data rt_demo demo_input_world = Inr w3"
    by (cases "delete_crop_data rt_demo demo_input_world") auto
  moreover
  have "\<not> isl (import_from_csv rt_demo demo_INPUTS demo_input_world)" by code_simp
  then obtain w4 where "import_from_csv rt_demo demo_INPUTS demo_input_world = Inr w4"
    by (cases "import_from_csv rt_demo demo_INPUTS demo_input_world") auto
  ultimately show ?thesis using inv h hf replaced by blast
qed

subsection \<open>Column names do not clash\<close>

lemma rev_neq: "rev xs \<noteq> rev ys \<Longrightarrow> xs \<noteq> ys"
  by auto

lemma kind_columns_iff:
  "x \<in> set (kind_columns k) \<longleftrightarrow>
     x = k @ ''_name'' \<or> x = k @ ''_amount_per_ha'' \<or> x = k @ ''_total_amount'' \<or> x = k @ ''_unit''"
  by (auto simp: kind_columns_def)

lemma suffix_neq:
  "k @ ''_name'' \<noteq> k' @ ''_amount_per_ha''" "k @ ''_name'' \<noteq> k' @ ''_total_amount''"
  "k @ ''_name'' \<noteq> k' @ ''_unit''" "k @ ''_amount_per_ha'' \<noteq> k' @ ''_name''"
  "k @ ''_amount_per_ha'' \<noteq> k' @ ''_total_amount''" "k @ ''_amount_per_ha'' \<noteq> k' @ ''_unit''"
  "k @ ''_total_amount'' \<noteq> k' @ ''_name''" "k @ ''_total_amount'' \<noteq> k' @ ''_amount_per_ha''"
  "k @ ''_total_amount'' \<noteq> k' @ ''_unit''" "k @ ''_unit'' \<noteq> k' @ ''_name''"
  "k @ ''_unit'' \<noteq> k' @ ''_amount_per_ha''" "k @ ''_unit'' \<noteq> k' @ ''_total_amount''"
  by (rule rev_neq, simp)+

lemma fixed_neq:
  "k @ ''_name'' \<noteq> ''type''" "k @ ''_name'' \<noteq> ''length''" "k @ ''_name'' \<noteq> ''width''"
  "k @ ''_name'' \<noteq> ''area''" "k @ ''_name'' \<noteq> ''num_rows''"
  "k @ ''_amount_per_ha'' \<noteq> ''type''" "k @ ''_amount_per_ha'' \<noteq> ''length''"
  "k @ ''_amount_per_ha'' \<noteq> ''width''" "k @ ''_amount_per_ha'' \<noteq> ''area''"
  "k @ ''_amount_per_ha'' \<noteq> ''num_rows''"
  "k @ ''_total_amount'' \<noteq> ''type''" "k @ ''_total_amount'' \<noteq> ''length''"
  "k @ ''_total_amount'' \<noteq> ''width''" "k @ ''_total_amount'' \<noteq> ''area''"
  "k @ ''_total_amount'' \<noteq> ''num_rows''"
  "k @ ''_unit'' \<noteq> ''type''" "k @ ''_unit'' \<noteq> ''length''" "k @ ''_unit'' \<noteq> ''width''"
  "k @ ''_unit'' \<noteq> ''area''" "k @ ''_unit'' \<noteq> ''num_rows''"
  by (rule rev_neq, simp)+

lemma kind_columns_disjoint:
  assumes "x \<in> set (kind_columns k)" and "x \<in> set (kind_columns k')"
  shows "k = k'"
  using assms unfolding kind_columns_iff
  by (elim disjE) (simp_all add: suffix_neq)

lemma kind_columns_not_fixed:
  "x \<in> set (kind_columns k) \<Longrightarrow> x \<notin> set fixed_columns"
  unfolding kind_columns_iff fixed_columns_def
  by (elim disjE) (simp_all add: fixed_neq)

subsection \<open>What export writes\<close>

lemma keys_add_input_cells:
  "set (keys (add_input_cells ins row)) =
     set (keys row) \<union> (\<Union>k \<in> set (keys ins). set (kind_columns k))"
proof (induction ins arbitrary: row)
  case Nil
  then show ?case by (simp add: keys_def)
next
  case (Cons p ins)
  obtain k d where p: "p = (k, d)" by (cases p)
  show ?case
    unfolding p add_input_cells.simps Cons.IH
    by (auto simp: keys_def dom_update kind_columns_def)
qed

lemma map_of_add_input_cells_other:
  "\<forall>k \<in> set (keys ins). x \<notin> set (kind_columns k) \<Longrightarrow>
     map_of (add_input_cells ins row) x = map_of row x"
proof (induction ins arbitrary: row)
  case Nil
  then show ?case by simp
next
  case (Cons p ins)
  obtain k d where p: "p = (k, d)" by (cases p)
  from Cons.prems p have x: "x \<notin> set (kind_columns k)"
    and rest: "\<forall>k \<in> set (keys ins). x \<notin> set (kind_columns k)"
    by (simp_all add: keys_def)
  from x have "x \<noteq> k @ ''_name''" "x \<noteq> k @ ''_amount_per_ha''"
    "x \<noteq> k @ ''_total_amount''" "x \<noteq> k @ ''_unit''"
    by (simp_all add: kind_columns_iff)
  then show ?case
    unfolding p add_input_cells.simps Cons.IH [OF rest]
    by (simp add: update_conv')
qed

lemma map_of_add_input_cells_kind:
  assumes "distinct (keys ins)" and "(k, d) \<in> set ins"
  shows "map_of (add_input_cells ins row) (k @ ''_name'') = Some (str_or_none (in_name d))
       \<and> map_of (add_input_cells ins row) (k @ ''_amount_per_ha'') = Some (VFloat (in_amount_per_ha d))
       \<and> map_of (add_input_cells ins row) (k @ ''_total_amount'') = Some (VFloat (in_total_amount d))
       \<and> map_of (add_input_cells ins row) (k @ ''_unit'') = Some (str_or_none (in_unit d))"
  using assms
proof (induction ins arbitrary: row)
  case Nil
  then show ?case by simp
next
  case (Cons p ins)
  obtain t dt where p: "p = (t, dt)" by (cases p)
  show ?case
  proof (cases "(k, d) \<in> set ins")
    case True
    from Cons.prems(1) have "distinct (keys ins)" by (simp add: keys_def)
    from Cons.IH [OF this True] show ?thesis
      unfolding p add_input_cells.simps by blast
  next
    case False
    with Cons.prems(2) p have eq: "t = k" "dt = d" by auto
    from Cons.prems(1) p eq have notin: "k \<notin> set (keys ins)" by (simp add: keys_def)
    have other: "\<forall>k' \<in> set (keys ins). x \<notin> set (kind_columns k')"
      if "x \<in> set (kind_columns k)" for x
      using that notin kind_columns_disjoint by blast
    have cols: "k @ ''_name'' \<in> set (kind_columns k)"
      "k @ ''_amount_per_ha'' \<in> set (kind_columns k)"
      "k @ ''_total_amount'' \<in> set (kind_columns k)"
      "k @ ''_unit'' \<in> set (kind_columns k)"
      by (simp_all add: kind_columns_def)
    show ?thesis
      unfolding p eq add_input_cells.simps
        map_of_add_input_cells_other [OF other [OF cols(1)]]
        map_of_add_input_cells_other [OF other [OF cols(2)]]
        map_of_add_input_cells_other [OF other [OF cols(3)]]
        map_of_add_input_cells_other [OF other [OF cols(4)]]
      by (simp add: update_conv' suffix_neq)
  qed
qed

lemma writerow_Inr:
  assumes "set (keys rowdict) \<subseteq> set fieldnames"
  shows "writerow rt fieldnames rowdict =
     Inr (map (\<lambda>key. csv_cell rt (case map_of rowdict key of None \<Rightarrow> VStr [] | Some v \<Rightarrow> v))
            fieldnames)"
proof -
  from assms have "filter (\<lambda>k. k \<notin> set fieldnames) (keys rowdict) = []"
    by (auto simp: filter_empty_conv)
  then show ?thesis by (simp add: writerow_def)
qed

lemma export_row_keys:
  "set (keys (export_row crop)) =
     set fixed_columns \<union> (\<Union>k \<in> set (keys (crop_inputs crop)). set (kind_columns k))"
  by (simp add: export_row_def keys_add_input_cells) (simp add: keys_def fixed_columns_def)

lemma set_export_fieldnames:
  "set (export_fieldnames crops) =
     set fixed_columns
       \<union> (\<Union>crop \<in> set crops. \<Union>k \<in> set (keys (crop_inputs crop)). set (kind_columns k))"
  by (simp add: export_fieldnames_eq)

lemma export_row_keys_subset:
  "crop \<in> set crops \<Longrightarrow> set (keys (export_row crop)) \<subseteq> set (export_fieldnames crops)"
  unfolding export_row_keys set_export_fieldnames by blast

lemma write_rows_Inr:
  assumes "\<forall>crop \<in> set crops. set (keys (export_row crop)) \<subseteq> set fieldnames"
  shows "write_rows rt fieldnames crops written =
           Inr (written @ map (\<lambda>crop. map (written_cell rt crop) fieldnames) crops)"
  using assms
proof (induction crops arbitrary: written)
  case Nil
  then show ?case by simp
next
  case (Cons crop crops)
  from Cons.prems have "set (keys (export_row crop)) \<subseteq> set fieldnames" by simp
  from writerow_Inr [OF this, of rt] Cons.IH Cons.prems show ?case
    by (simp add: written_cell_def [abs_def])
qed

lemma export_to_csv_Inr:
  assumes "crop_data w \<noteq> []" and "open_for_writing w ''crop_data.csv'' = None"
  shows "export_to_csv rt w =
     Inr (print ''Data exported to crop_data.csv successfully.''
            (w\<lparr>files := AList.update ''crop_data.csv''
                 (CsvFile (export_fieldnames (crop_data w)
                    # map (\<lambda>crop. map (written_cell rt crop) (export_fieldnames (crop_data w)))
                        (crop_data w)))
                 (files w)\<rparr>))"
proof -
  have "\<forall>crop \<in> set (crop_data w).
      set (keys (export_row crop)) \<subseteq> set (export_fieldnames (crop_data w))"
    by (simp add: export_row_keys_subset)
  from write_rows_Inr [OF this, of rt] assms show ?thesis
    by (simp add: export_to_csv_def Let_def)
qed

subsection \<open>What import reads back\<close>

lemma map_of_foldl_update:
  "map_of (foldl (\<lambda>d (k, v). AList.update k v d) d ps) = map_of d ++ map_of (rev ps)"
proof (induction ps arbitrary: d)
  case Nil
  then show ?case by simp
next
  case (Cons p ps)
  obtain k v where p: "p = (k, v)" by (cases p)
  show ?case
    unfolding p
    by (rule ext) (simp add: Cons.IH update_conv' map_add_def split: option.splits)
qed

lemma map_of_py_dict: "map_of (py_dict ps) = map_of (rev ps)"
  by (simp add: py_dict_def map_of_foldl_update)

lemma map_of_graph:
  "map_of (map (\<lambda>k. (k, f k)) ks) x = (if x \<in> set ks then Some (f x) else None)"
  by (induction ks) auto

lemma read_row_written:
  "map_of (read_row fieldnames (map g fieldnames)) x =
     (if x \<in> set fieldnames then Some (Some (g x)) else None)"
proof -
  have "zip fieldnames (map Some (map g fieldnames)) = map (\<lambda>k. (k, Some (g k))) fieldnames"
    by (induction fieldnames) simp_all
  then have "map_of (read_row fieldnames (map g fieldnames)) =
      map_of (map (\<lambda>k. (k, Some (g k))) (rev fieldnames))"
    by (simp add: read_row_def map_of_py_dict rev_map)
  then show ?thesis by (simp add: map_of_graph)
qed

lemma keys_read_row_written:
  "x \<in> set (keys (read_row fieldnames (map g fieldnames))) \<longleftrightarrow> x \<in> set fieldnames"
  by (simp add: keys_iff_map_of read_row_written)

lemma written_fixed:
  "written_cell rt crop ''type'' = crop_type crop"
  "written_cell rt crop ''length'' = str_of_float rt (crop_length crop)"
  "written_cell rt crop ''width'' = str_of_float rt (crop_width crop)"
  "written_cell rt crop ''area'' = str_of_float rt (crop_area crop)"
  "written_cell rt crop ''num_rows'' = str_of_int rt (crop_num_rows crop)"
proof -
  have "map_of (export_row crop) x =
      map_of [(''type'', VStr (crop_type crop)), (''length'', VFloat (crop_length crop)),
              (''width'', VFloat (crop_width crop)), (''area'', VFloat (crop_area crop)),
              (''num_rows'', VInt (crop_num_rows crop))] x"
    if "x \<in> set fixed_columns" for x
    unfolding export_row_def
    using that kind_columns_not_fixed [of x]
    by (intro map_of_add_input_cells_other) blast
  then show "written_cell rt crop ''type'' = crop_type crop"
    "written_cell rt crop ''length'' = str_of_float rt (crop_length crop)"
    "written_cell rt crop ''width'' = str_of_float rt (crop_width crop)"
    "written_cell rt crop ''area'' = str_of_float rt (crop_area crop)"
    "written_cell rt crop ''num_rows'' = str_of_int rt (crop_num_rows crop)"
    by (simp_all add: written_cell_def fixed_columns_def csv_cell_def)
qed

lemma written_kind:
  assumes "distinct (keys (crop_inputs crop))" and "(k, d) \<in> set (crop_inputs crop)"
  shows "written_cell rt crop (k @ ''_name'') = (case in_name d of None \<Rightarrow> [] | Some s \<Rightarrow> s)"
    and "written_cell rt crop (k @ ''_amount_per_ha'') = str_of_float rt (in_amount_per_ha d)"
    and "written_cell rt crop (k @ ''_total_amount'') = str_of_float rt (in_total_amount d)"
    and "written_cell rt crop (k @ ''_unit'') = (case in_unit d of None \<Rightarrow> [] | Some s \<Rightarrow> s)"
  using map_of_add_input_cells_kind [OF assms]
  by (simp_all add: written_cell_def export_row_def csv_cell_def str_or_none_def
        split: option.splits)

lemma import_inputs_total:
  "\<forall>k \<in> set kinds. k @ ''_name'' \<in> set (keys row) \<longrightarrow> (\<exists>d. import_input rt row k = Inr d) \<Longrightarrow>
     \<exists>inputs. import_inputs rt row kinds acc = Inr inputs"
proof (induction kinds arbitrary: acc)
  case Nil
  then show ?case by simp
next
  case (Cons t kinds)
  then show ?case by (cases "t @ ''_name'' \<in> set (keys row)") auto
qed

lemma kind_columns_in_fieldnames:
  "crop \<in> set crops \<Longrightarrow> k \<in> set (keys (crop_inputs crop)) \<Longrightarrow>
     set (kind_columns k) \<subseteq> set (export_fieldnames crops)"
  unfolding set_export_fieldnames by blast

lemma name_in_fieldnames:
  assumes "k @ ''_name'' \<in> set (export_fieldnames crops)"
  shows "\<exists>crop \<in> set crops. k \<in> set (keys (crop_inputs crop))"
proof -
  have own: "k @ ''_name'' \<in> set (kind_columns k)" by (simp add: kind_columns_def)
  with kind_columns_not_fixed have "k @ ''_name'' \<notin> set fixed_columns" by blast
  with assms obtain crop k' where "crop \<in> set crops" "k' \<in> set (keys (crop_inputs crop))"
    "k @ ''_name'' \<in> set (kind_columns k')"
    unfolding set_export_fieldnames by blast
  with own kind_columns_disjoint [of "k @ ''_name''" k k'] show ?thesis by blast
qed

lemma import_written_row:
  assumes mem: "crop \<in> set crops"
    and ok: "crop_ok INPUTS crop"
    and ex: "exportable rt crop"
    and same: "same_kinds INPUTS crops"
  shows "\<exists>crop'. import_row rt INPUTS
             (read_row (export_fieldnames crops)
                (map (written_cell rt crop) (export_fieldnames crops))) = Inr crop'
           \<and> same_content crop crop'"
proof -
  let ?F = "export_fieldnames crops"
  let ?R = "read_row ?F (map (written_cell rt crop) ?F)"
  let ?ins = "crop_inputs crop"
  from ok obtain avail where av: "map_of INPUTS (crop_type crop) = Some avail"
    and sub: "set (keys ?ins) \<subseteq> set (keys avail)"
    by (auto simp: crop_ok_def split: option.splits)
  from ex have dist: "distinct (keys ?ins)" by (simp add: exportable_def)
  have cell: "map_of ?R x = Some (Some (written_cell rt crop x))" if "x \<in> set ?F" for x
    using that by (simp add: read_row_written)
  have fixed: "x \<in> set ?F" if "x \<in> set fixed_columns" for x
    using that by (simp add: set_export_fieldnames)
  have ty: "row_get ?R ''type'' = Inr (Some (crop_type crop))"
    by (simp add: row_get_def cell fixed fixed_columns_def written_fixed)
  from ex have len: "row_float rt ?R ''length'' = Inr (crop_length crop)"
    and wid: "row_float rt ?R ''width'' = Inr (crop_width crop)"
    and area: "row_float rt ?R ''area'' = Inr (crop_area crop)"
    and rows: "row_int rt ?R ''num_rows'' = Inr (crop_num_rows crop)"
    by (simp_all add: row_float_def row_int_def row_get_def cell fixed fixed_columns_def
          written_fixed py_float_def py_int_def exportable_def reads_back_def)
  have entry: "import_input rt ?R k = Inr d" if kd: "(k, d) \<in> set ?ins" for k d
  proof -
    from kd have "k \<in> set (keys ?ins)" by (force simp: keys_def)
    from kind_columns_in_fieldnames [OF mem this]
    have cols: "k @ ''_name'' \<in> set ?F" "k @ ''_amount_per_ha'' \<in> set ?F"
      "k @ ''_total_amount'' \<in> set ?F" "k @ ''_unit'' \<in> set ?F"
      by (auto simp: kind_columns_def)
    from ex kd obtain n u where nu: "in_name d = Some n" "in_unit d = Some u"
      and rb: "reads_back rt (in_amount_per_ha d)" "reads_back rt (in_total_amount d)"
      by (auto simp: exportable_def)
    from nu rb show ?thesis
      by (simp add: import_input_def row_float_def row_get_def cell cols
            written_kind [OF dist kd] py_float_def reads_back_def)
  qed
  have present: "k \<in> set (keys ?ins)"
    if "k \<in> set (keys avail)" "k @ ''_name'' \<in> set (keys ?R)" for k
  proof -
    from that(2) have "k @ ''_name'' \<in> set ?F" by (simp add: keys_read_row_written)
    from name_in_fieldnames [OF this] obtain c' where
      "c' \<in> set crops" "k \<in> set (keys (crop_inputs c'))" by blast
    with same mem av that(1) show ?thesis
      by (fastforce simp: same_kinds_def)
  qed
  have each: "\<exists>d. import_input rt ?R k = Inr d"
    if "k \<in> set (keys avail)" "k @ ''_name'' \<in> set (keys ?R)" for k
  proof -
    from present [OF that] obtain d where "(k, d) \<in> set ?ins" by (auto simp: keys_def)
    from entry [OF this] show ?thesis ..
  qed
  then obtain inputs where ins: "import_inputs rt ?R (keys avail) [] = Inr inputs"
    using import_inputs_total [of "keys avail" ?R rt "[]"] by blast
  have "map_of inputs k = map_of ?ins k" for k
  proof (cases "k \<in> set (keys avail) \<and> k @ ''_name'' \<in> set (keys ?R)")
    case True
    with import_inputs_Inr [OF ins, of k] obtain d' where
      d': "import_input rt ?R k = Inr d'" "map_of inputs k = Some d'" by auto
    from True have "k \<in> set (keys ?ins)" by (intro present) simp_all
    then obtain d where kd: "(k, d) \<in> set ?ins" by (auto simp: keys_def)
    from entry [OF kd] d' have "d' = d" by simp
    moreover from dist kd have "map_of ?ins k = Some d" by (simp add: keys_def)
    ultimately show ?thesis using d' by simp
  next
    case False
    with import_inputs_Inr [OF ins, of k] have none: "map_of inputs k = None" by simp
    have "k \<notin> set (keys ?ins)"
    proof
      assume k: "k \<in> set (keys ?ins)"
      from kind_columns_in_fieldnames [OF mem k] have "k @ ''_name'' \<in> set ?F"
        by (auto simp: kind_columns_def)
      with k sub False show False by (auto simp: keys_read_row_written)
    qed
    with none show ?thesis by (simp add: keys_iff_map_of)
  qed
  then have eq: "map_of ?ins = map_of inputs" by (intro ext) simp
  let ?crop' = "\<lparr>crop_type = crop_type crop, crop_length = crop_length crop,
                  crop_width = crop_width crop, crop_area = crop_area crop,
                  crop_num_rows = crop_num_rows crop, crop_inputs = inputs\<rparr>"
  from ty len wid area rows av ins have "import_row rt INPUTS ?R = Inr ?crop'"
    by (simp add: import_row_def)
  moreover from eq have "same_content crop ?crop'" by (simp add: same_content_def)
  ultimately show ?thesis by blast
qed

subsection \<open>The round trip where it works\<close>

lemma list_all2_choice:
  "\<forall>x \<in> set xs. \<exists>y. P x y \<Longrightarrow> \<exists>ys. list_all2 P xs ys"
proof (induction xs)
  case Nil
  then show ?case by simp
next
  case (Cons x xs)
  then obtain y ys where "P x y" "list_all2 P xs ys" by auto
  then have "list_all2 P (x # xs) (y # ys)" by simp
  then show ?case ..
qed

text \<open>
  The round trip on the stores on which it works. Let the store be non-empty and have the
  invariant, let each of its records be one that can be written and read back, let its
  records agree on their kinds, and let \<^verbatim>\<open>crop_data.csv\<close> be a name that can be opened for
  writing. Then export returns, and importing \<^verbatim>\<open>crop_data.csv\<close>
  afterwards, whatever the store holds by then, returns with a store of records that have
  the same content as the exported ones, in the same order.
\<close>

theorem export_import_roundtrip:
  assumes "crop_data w \<noteq> []"
    and "store_ok INPUTS (crop_data w)"
    and "\<forall>crop \<in> set (crop_data w). exportable rt crop"
    and "same_kinds INPUTS (crop_data w)"
    and "open_for_writing w ''crop_data.csv'' = None"
  shows "\<exists>w1. export_to_csv rt w = Inr w1
           \<and> (\<forall>store rest. \<exists>w2.
                 import_from_csv rt INPUTS (w1\<lparr>crop_data := store, stdin := ''crop_data.csv'' # rest\<rparr>)
                   = Inr w2
                 \<and> list_all2 same_content (crop_data w) (crop_data w2))"
proof -
  let ?crops = "crop_data w"
  let ?F = "export_fieldnames ?crops"
  let ?cells = "\<lambda>crop. map (written_cell rt crop) ?F"
  let ?csv = "?F # map ?cells ?crops"
  let ?w1 = "print ''Data exported to crop_data.csv successfully.''
               (w\<lparr>files := AList.update ''crop_data.csv'' (CsvFile ?csv) (files w)\<rparr>)"
  have exp: "export_to_csv rt w = Inr ?w1"
    by (rule export_to_csv_Inr [OF assms(1,5)])
  have "?F \<noteq> []" by (simp add: export_fieldnames_eq fixed_columns_def)
  then have "filter (\<lambda>r. r \<noteq> []) (map ?cells ?crops) = map ?cells ?crops"
    by (simp add: filter_id_conv)
  then have rd: "DictReader ?csv = map (\<lambda>crop. read_row ?F (?cells crop)) ?crops"
    by simp
  have "\<forall>crop \<in> set ?crops. \<exists>crop'.
      import_row rt INPUTS (read_row ?F (?cells crop)) = Inr crop' \<and> same_content crop crop'"
    using assms(2,3,4)
    by (auto simp: store_ok_def list_all_iff intro!: import_written_row)
  from list_all2_choice [OF this] obtain crops' where
    all: "list_all2 (\<lambda>crop crop'. import_row rt INPUTS (read_row ?F (?cells crop)) = Inr crop'
            \<and> same_content crop crop') ?crops crops'" ..
  then have "list_all2 (\<lambda>row crop'. import_row rt INPUTS row = Inr crop')
      (map (\<lambda>crop. read_row ?F (?cells crop)) ?crops) crops'"
    by (simp add: list_all2_map1 list_all2_conv_all_nth)
  from import_rows_all [OF this] rd
  have rows: "import_rows rt INPUTS (DictReader ?csv) [] = Inr crops'" by simp
  from all have content: "list_all2 same_content ?crops crops'"
    by (simp add: list_all2_conv_all_nth)
  have "\<exists>w2. import_from_csv rt INPUTS (?w1\<lparr>crop_data := store, stdin := ''crop_data.csv'' # rest\<rparr>)
          = Inr w2 \<and> list_all2 same_content ?crops (crop_data w2)" for store rest
  proof -
    let ?w = "?w1\<lparr>crop_data := store, stdin := ''crop_data.csv'' # rest\<rparr>"
    have st: "stdin ?w = ''crop_data.csv'' # rest" by simp
    have "map_of (files ?w) ''crop_data.csv'' = Some (CsvFile ?csv)"
      by (simp add: print_def update_conv')
    with rows have "read_csv rt INPUTS ?w ''crop_data.csv'' = Inr crops'"
      by (simp add: read_csv_def)
    with content show ?thesis
      unfolding import_from_csv_Cons [OF st, of rt INPUTS]
      by (simp add: Let_def print_def)
  qed
  with exp show ?thesis by blast
qed

theorem export_import_roundtrip_witness:
  "crop_data (empty_world\<lparr>crop_data := [soy_a, corn_c]\<rparr>) \<noteq> []
   \<and> store_ok demo_INPUTS [soy_a, corn_c]
   \<and> (\<forall>crop \<in> set [soy_a, corn_c]. exportable rt_demo crop)
   \<and> same_kinds demo_INPUTS [soy_a, corn_c]
   \<and> open_for_writing (empty_world\<lparr>crop_data := [soy_a, corn_c]\<rparr>) ''crop_data.csv'' = None
   \<and> (\<exists>w1 w2. export_to_csv rt_demo (empty_world\<lparr>crop_data := [soy_a, corn_c]\<rparr>) = Inr w1
          \<and> import_from_csv rt_demo demo_INPUTS
               (w1\<lparr>crop_data := [], stdin := ''crop_data.csv'' # []\<rparr>) = Inr w2
          \<and> list_all2 same_content [soy_a, corn_c] (crop_data w2))"
proof -
  let ?w = "empty_world\<lparr>crop_data := [soy_a, corn_c]\<rparr>"
  have h1: "crop_data ?w \<noteq> []" by simp
  have h2: "store_ok demo_INPUTS (crop_data ?w)" by code_simp
  have h3: "\<forall>crop \<in> set (crop_data ?w). exportable rt_demo crop" by code_simp
  have h4: "same_kinds demo_INPUTS (crop_data ?w)" by code_simp
  have h5: "open_for_writing ?w ''crop_data.csv'' = None"
    by (simp add: open_for_writing_def empty_world_def)
  from export_import_roundtrip [OF h1 h2 h3 h4 h5] obtain w1 where
    "export_to_csv rt_demo ?w = Inr w1"
    and "\<exists>w2. import_from_csv rt_demo demo_INPUTS
                (w1\<lparr>crop_data := [], stdin := ''crop_data.csv'' # []\<rparr>) = Inr w2
              \<and> list_all2 same_content (crop_data ?w) (crop_data w2)"
    by blast
  with h1 h2 h3 h4 h5 show ?thesis by auto
qed

subsection \<open>The round trip where it fails\<close>

text \<open>
  \<^bold>\<open>C1\<close>. The round trip fails on a store that the operator can enter: two soybean fields,
  the first with fertilizer, the second with every input skipped. Export writes the four
  fertilizer columns and leaves them empty in the second row. Import of that very file, in
  a session whose store is empty, stops at the second row with \<^verbatim>\<open>ValueError\<close>, reports
  invalid data and leaves the store empty: the exported records are not read back.
\<close>

theorem export_import_roundtrip_fails:
  "(case input_crop_data rt_demo demo_INPUTS
           (empty_world\<lparr>stdin := [''1'', ''200'', ''100'', ''10'', ''3'', ''0'']\<rparr>) of
      Inl e \<Rightarrow> False
    | Inr w1 \<Rightarrow>
        (case input_crop_data rt_demo demo_INPUTS
                (w1\<lparr>stdin := [''1'', ''100'', ''100'', ''5'', ''0'', ''0'']\<rparr>) of
           Inl e \<Rightarrow> False
         | Inr w2 \<Rightarrow> crop_data w2 = [soy_a, soy_b]))
   \<and> export_to_csv rt_demo (empty_world\<lparr>crop_data := [soy_a, soy_b]\<rparr>) =
       Inr \<lparr>crop_data = [soy_a, soy_b],
            files = [(''crop_data.csv'', CsvFile [demo_header, demo_cells_a, demo_cells_b])],
            stdin = [],
            stdout = [''Data exported to crop_data.csv successfully.'']\<rparr>
   \<and> import_from_csv rt_demo demo_INPUTS
        \<lparr>crop_data = [],
         files = [(''crop_data.csv'', CsvFile [demo_header, demo_cells_a, demo_cells_b])],
         stdin = [''crop_data.csv''], stdout = []\<rparr> =
       Inr \<lparr>crop_data = [],
            files = [(''crop_data.csv'', CsvFile [demo_header, demo_cells_a, demo_cells_b])],
            stdin = [],
            stdout = [''Enter the name of the CSV file to import: '',
                      ''Error: Invalid data in CSV file. could not convert string to float: ''
                        @ [CHR 0x27, CHR 0x27]]\<rparr>"
  by code_simp

end
